theory Spec2Isabelle
  imports Main
begin

section \<open>The Service Layer client of \<open>src/index.ts\<close>\<close>

text \<open>
  The class \<open>ServiceLayer\<close> keeps a configuration, a transport instance and the times
  of its session, and talks to a remote server through that instance. Its methods are
  embedded as functions that take the object (\<open>this\<close>) and the world outside the
  program and return what the method returns or raises, together with the object and the
  world afterwards. A raised error is \<open>Inl\<close>, a returned value \<open>Inr\<close>.
  Writing to the console and the global setting \<open>axios.defaults.withCredentials\<close> are
  not modelled.
\<close>

subsection \<open>Values received from the server\<close>

text \<open>
  A response body is any JSON value. Numbers are taken to be integers. An object is an
  association list; the first binding of a key is the value of the property.
\<close>

datatype json =
    JUndefined
  | JNull
  | JBool bool
  | JNum int
  | JStr string
  | JArr "json list"
  | JObj "(string \<times> json) list"

record http_response =
  status :: nat
  data :: json

text \<open>
  What \<open>parseError\<close> destructures from a caught value: \<open>response\<close>, \<open>request\<close>
  (here the address the request went to) and \<open>message\<close>.
\<close>

record js_error =
  response :: "http_response option"
  request :: "json option"
  message :: string

definition TypeError :: "string \<Rightarrow> js_error" where
  "TypeError msg = \<lparr>response = None, request = None, message = msg\<rparr>"

text \<open>JavaScript's truthiness, as the conditions on \<open>@odata.nextLink\<close> test it.\<close>

fun truthy :: "json \<Rightarrow> bool" where
  "truthy JUndefined = False"
| "truthy JNull = False"
| "truthy (JBool b) = b"
| "truthy (JNum n) = (n \<noteq> 0)"
| "truthy (JStr s) = (s \<noteq> [])"
| "truthy (JArr xs) = True"
| "truthy (JObj kvs) = True"

text \<open>
  Reading a property \<open>v[k]\<close> for a key that is not built into strings and arrays
  (\<open>value\<close> and \<open>@odata.nextLink\<close> are the keys read): on \<open>null\<close> and
  \<open>undefined\<close> it raises a \<open>TypeError\<close>, on an object it finds the key or gives
  \<open>undefined\<close>, on every other value it gives \<open>undefined\<close>.
\<close>

fun property :: "json \<Rightarrow> string \<Rightarrow> js_error + json" where
  "property JUndefined k =
     Inl (TypeError (''Cannot read properties of undefined (reading '' @ k @ '')''))"
| "property JNull k =
     Inl (TypeError (''Cannot read properties of null (reading '' @ k @ '')''))"
| "property (JObj kvs) k = Inr (case map_of kvs k of None \<Rightarrow> JUndefined | Some v \<Rightarrow> v)"
| "property v k = Inr JUndefined"

text \<open>
  \<open>Array.prototype.concat\<close> with one argument: an array argument is spread, any
  other value is appended as one element.
\<close>

fun concat_js :: "json list \<Rightarrow> json \<Rightarrow> json list" where
  "concat_js result (JArr xs) = result @ xs"
| "concat_js result v = result @ [v]"

text \<open>A natural number in decimal, as a template literal prints it.\<close>

function decimal :: "nat \<Rightarrow> string" where
  "decimal n =
     (if n < 10 then [''0123456789'' ! n]
      else decimal (n div 10) @ [''0123456789'' ! (n mod 10)])"
  by pat_completeness auto
termination
  by (relation "measure id") auto

declare decimal.simps [simp del]

subsection \<open>The object\<close>

record ConfigProp =
  port :: nat
  version :: string
  debug :: bool
  host :: string
  company :: string
  password :: string
  username :: string

text \<open>
  The argument of \<open>createSession\<close> is spread over the stored configuration, so a
  field it does not carry keeps the stored value: each field is optional here.
\<close>

record ConfigArg =
  arg_port :: "nat option"
  arg_version :: "string option"
  arg_debug :: "bool option"
  arg_host :: "string option"
  arg_company :: "string option"
  arg_password :: "string option"
  arg_username :: "string option"

definition spread :: "ConfigProp \<Rightarrow> ConfigArg \<Rightarrow> ConfigProp" where
  "spread c a =
     \<lparr>port = (case arg_port a of None \<Rightarrow> port c | Some v \<Rightarrow> v),
      version = (case arg_version a of None \<Rightarrow> version c | Some v \<Rightarrow> v),
      debug = (case arg_debug a of None \<Rightarrow> debug c | Some v \<Rightarrow> v),
      host = (case arg_host a of None \<Rightarrow> host c | Some v \<Rightarrow> v),
      company = (case arg_company a of None \<Rightarrow> company c | Some v \<Rightarrow> v),
      password = (case arg_password a of None \<Rightarrow> password c | Some v \<Rightarrow> v),
      username = (case arg_username a of None \<Rightarrow> username c | Some v \<Rightarrow> v)\<rparr>"

definition whole :: "ConfigProp \<Rightarrow> ConfigArg" where
  "whole c =
     \<lparr>arg_port = Some (port c), arg_version = Some (version c), arg_debug = Some (debug c),
      arg_host = Some (host c), arg_company = Some (company c),
      arg_password = Some (password c), arg_username = Some (username c)\<rparr>"

text \<open>
  The transport instance \<open>axios.create\<close> returns: its base address and the
  \<open>Cookie\<close> header it sends with every request, once set.
\<close>

record axios_instance =
  baseURL :: string
  Cookie :: "string option"

type_synonym instant = int

text \<open>
  The fields of the class. \<open>axios\<close> is the field \<open>instance\<close> (a reserved word
  here); \<open>null\<close> is \<open>None\<close>, and so is an \<open>endSessionTime\<close> that is the invalid
  date.
\<close>

record ServiceLayer =
  axios :: "axios_instance option"
  sessionTimeout :: int
  startSessionTime :: "instant option"
  endSessionTime :: "instant option"
  config :: ConfigProp

definition constructor :: ServiceLayer where
  "constructor =
     \<lparr>axios = None, sessionTimeout = 0, startSessionTime = None, endSessionTime = None,
      config = \<lparr>port = 80, version = ''v2'', debug = False, host = ''http://localhost'',
        company = [], password = [], username = []\<rparr>\<rparr>"

subsection \<open>The world outside\<close>

datatype verb = GET | PUT | PATCH | POST

text \<open>
  A call of the instance: the instance it goes through, the verb, the address, the
  payload of a writing verb and the options of a \<open>get\<close>. An argument that is not
  passed is \<open>undefined\<close>. The address is a JSON value, since \<open>find\<close> passes on
  whatever the server sent as \<open>@odata.nextLink\<close>.
\<close>

record http_request =
  via :: axios_instance
  http_method :: verb
  url :: json
  payload :: json
  options :: json

text \<open>
  What becomes of a call before the transport settles it: a response with its status
  and body, no response to a request that was sent, or a request that could not be set
  up. The two failures carry the message of the error the transport raises.
\<close>

datatype raw_outcome =
    Responded nat json
  | NoResponse string
  | SetupFailed string

record login_request =
  login_via :: axios_instance
  CompanyDB :: string
  Password :: string
  UserName :: string

text \<open>
  The body of a successful \<open>Login\<close>, read at the type of the wire protocol: a session
  id and a timeout in minutes.
\<close>

record login_reply =
  SessionId :: string
  SessionTimeout :: int

text \<open>
  The world is a script: the instant the clock shows at its reading number \<open>k\<close>; what
  the \<open>Login\<close> call number \<open>k\<close> comes to (the reply, or the error the transport
  raises); what becomes of call number \<open>k\<close> of the other calls. Every run of the
  program against a server is the run on some script. A reading of the clock is a date.
  The world records the readings
  taken and the calls issued, oldest first, so that a statement can say which requests
  the program made.
\<close>

record world =
  clock :: "nat \<Rightarrow> instant"
  ticks :: nat
  login_replies :: "nat \<Rightarrow> js_error + login_reply"
  logins :: "login_request list"
  replies :: "nat \<Rightarrow> raw_outcome"
  calls :: "http_request list"

text \<open>
  \<open>dayjs()\<close>, \<open>add(n, 'minute')\<close> and \<open>isAfter\<close> of the library \<open>dayjs\<close>, on
  instants in milliseconds. \<open>dayjs()\<close> reads the clock. \<open>add\<close> adds 60000 ms for
  each minute and builds a JavaScript \<open>Date\<close> from the sum, which is a date only
  within 8640000000000000 ms of the epoch: beyond that the result is the invalid date,
  \<open>None\<close> here. \<open>isAfter\<close> is strict, and false when compared with \<open>null\<close> or
  with the invalid date.
\<close>

definition max_time :: int where
  "max_time = 8640000000000000"

definition dayjs :: "world \<Rightarrow> instant \<times> world" where
  "dayjs w = (clock w (ticks w), w\<lparr>ticks := Suc (ticks w)\<rparr>)"

definition add_minute :: "instant \<Rightarrow> int \<Rightarrow> instant option" where
  "add_minute t n =
     (if - max_time \<le> t + n * 60000 \<and> t + n * 60000 \<le> max_time
      then Some (t + n * 60000) else None)"

fun isAfter :: "instant \<Rightarrow> instant option \<Rightarrow> bool" where
  "isAfter now None = False"
| "isAfter now (Some t) = (t < now)"

text \<open>The \<open>validateStatus\<close> that \<open>createSession\<close> gives the instance.\<close>

definition validateStatus :: "nat \<Rightarrow> bool" where
  "validateStatus st = ((st \<ge> 200 \<and> st < 300) \<or> st = 405)"

text \<open>
  The options of a call are merged over the configuration of the instance, so a
  \<open>validateStatus\<close> among them replaces the one of the instance. The transport takes
  a function or \<open>null\<close> there. A function is not a JSON value; what the options of
  this model can carry is \<open>null\<close>, or another falsy value, which switches the check
  off. A truthy value that is not a function is outside the type the transport takes
  and outside this model, which reads it as if the key were absent. The transport also
  lets a response with status 0 through unchecked.
\<close>

fun own :: "json \<Rightarrow> string \<Rightarrow> json option" where
  "own (JObj kvs) k = map_of kvs k"
| "own v k = None"

definition accepts :: "json \<Rightarrow> nat \<Rightarrow> bool" where
  "accepts opts st =
     (st = 0 \<or>
      (case own opts ''validateStatus'' of
         None \<Rightarrow> validateStatus st
       | Some v \<Rightarrow> if truthy v then validateStatus st else True))"

text \<open>
  The transport settles a call: a response whose status the check in force accepts
  resolves, every other outcome is raised as an error of the matching shape.
\<close>

fun settle :: "http_request \<Rightarrow> raw_outcome \<Rightarrow> js_error + http_response" where
  "settle req (Responded st body) =
     (if accepts (options req) st then Inr \<lparr>status = st, data = body\<rparr>
      else Inl \<lparr>response = Some \<lparr>status = st, data = body\<rparr>, request = Some (url req),
                 message = ''Request failed with status code '' @ decimal st\<rparr>)"
| "settle req (NoResponse msg) =
     Inl \<lparr>response = None, request = Some (url req), message = msg\<rparr>"
| "settle req (SetupFailed msg) =
     Inl \<lparr>response = None, request = None, message = msg\<rparr>"

definition call :: "world \<Rightarrow> http_request \<Rightarrow> (js_error + http_response) \<times> world" where
  "call w req =
     (settle req (replies w (length (calls w))), w\<lparr>calls := calls w @ [req]\<rparr>)"

definition post_Login :: "world \<Rightarrow> login_request \<Rightarrow> (js_error + login_reply) \<times> world" where
  "post_Login w req =
     (login_replies w (length (logins w)), w\<lparr>logins := logins w @ [req]\<rparr>)"

text \<open>
  A verb of the field \<open>instance\<close>: reading the verb off \<open>null\<close> raises a
  \<open>TypeError\<close> and issues no call.
\<close>

definition send ::
  "ServiceLayer \<Rightarrow> world \<Rightarrow> verb \<Rightarrow> json \<Rightarrow> json \<Rightarrow> json \<Rightarrow> (js_error + http_response) \<times> world"
where
  "send this w v u d opts =
     (case axios this of
        None \<Rightarrow> (Inl (TypeError ''Cannot read properties of null''), w)
      | Some ax \<Rightarrow> call w \<lparr>via = ax, http_method = v, url = u, payload = d, options = opts\<rparr>)"

subsection \<open>Session\<close>

text \<open>
  \<open>createSession\<close> (lines 49 to 93). The merged configuration is one object, which
  \<open>this.config\<close> and the parameter both refer to, so removing the slash changes the
  stored configuration. The new instance carries no cookie until the login has
  succeeded. When the login fails, the error leaves the method at the \<open>await\<close>: the
  object keeps the new configuration and the new instance, and the times of its session
  stay as they were.
\<close>

definition createSession ::
  "ServiceLayer \<Rightarrow> world \<Rightarrow> ConfigArg \<Rightarrow> (js_error + unit) \<times> ServiceLayer \<times> world"
where
  "createSession this w arg =
     (let merged = spread (config this) arg;
          cfg = (if host merged \<noteq> [] \<and> last (host merged) = CHR ''/''
                 then merged\<lparr>host := take (length (host merged) - 1) (host merged)\<rparr>
                 else merged);
          ax = \<lparr>baseURL = host cfg @ '':'' @ decimal (port cfg) @ ''/b1s/'' @ version cfg @ ''/'',
                Cookie = None\<rparr>;
          this1 = this\<lparr>config := cfg, axios := Some ax\<rparr>;
          (result, w1) = post_Login w
             \<lparr>login_via = ax, CompanyDB = company cfg, Password = password cfg,
              UserName = username cfg\<rparr>
      in case result of
           Inl e \<Rightarrow> (Inl e, this1, w1)
         | Inr r \<Rightarrow>
             (let ax1 = ax\<lparr>Cookie :=
                    Some (''B1SESSION='' @ SessionId r @ '';CompanyDB='' @ company cfg)\<rparr>;
                  (start, w2) = dayjs w1
              in (Inr (),
                  this1\<lparr>axios := Some ax1,
                        sessionTimeout := SessionTimeout r,
                        startSessionTime := Some start,
                        endSessionTime := add_minute start (SessionTimeout r - 1)\<rparr>,
                  w2)))"

text \<open>
  \<open>refreshSession\<close> (lines 98 to 106): one reading of the clock, and a new login with
  the stored configuration when the reading is after the end of the session.
\<close>

definition refreshSession ::
  "ServiceLayer \<Rightarrow> world \<Rightarrow> (js_error + unit) \<times> ServiceLayer \<times> world"
where
  "refreshSession this w =
     (let (now, w1) = dayjs w
      in if isAfter now (endSessionTime this)
         then createSession this w1 (whole (config this))
         else (Inr (), this, w1))"

subsection \<open>Queries\<close>

text \<open>A parameter declared \<open>options = {}\<close>: the default stands in for \<open>undefined\<close>.\<close>

definition default_options :: "json \<Rightarrow> json" where
  "default_options opts = (if opts = JUndefined then JObj [] else opts)"

text \<open>\<open>query\<close> (lines 114 to 118) has no \<open>try\<close>: what is raised leaves the method.\<close>

definition query ::
  "ServiceLayer \<Rightarrow> world \<Rightarrow> json \<Rightarrow> json \<Rightarrow> (js_error + json) \<times> ServiceLayer \<times> world"
where
  "query this w q opts0 =
     (let opts = default_options opts0;
          (r, this1, w1) = refreshSession this w
      in case r of
           Inl e \<Rightarrow> (Inl e, this1, w1)
         | Inr u \<Rightarrow>
             (case send this1 w1 GET q JUndefined opts of
                (Inl e, w2) \<Rightarrow> (Inl e, this1, w2)
              | (Inr result, w2) \<Rightarrow> (Inr (data result), this1, w2)))"

definition nextLink :: string where
  "nextLink = ''@odata.nextLink''"

text \<open>
  The \<open>while\<close> loop of \<open>find\<close>. The server may send a next link with every page, so
  the loop need not end: \<open>None\<close> is the run that never returns.
\<close>

partial_function (option) find_loop ::
  "ServiceLayer \<Rightarrow> world \<Rightarrow> json \<Rightarrow> json \<Rightarrow> json list \<Rightarrow>
     ((js_error + json list) \<times> ServiceLayer \<times> world) option"
where
  "find_loop this w request_page opts result =
     (case property request_page nextLink of
        Inl e \<Rightarrow> Some (Inl e, this, w)
      | Inr link \<Rightarrow>
          if truthy link then
            (case query this w link opts of
               (Inl e, this1, w1) \<Rightarrow> Some (Inl e, this1, w1)
             | (Inr page, this1, w1) \<Rightarrow>
                 (case property page ''value'' of
                    Inl e \<Rightarrow> Some (Inl e, this1, w1)
                  | Inr v \<Rightarrow> find_loop this1 w1 page opts (concat_js result v)))
          else Some (Inr result, this, w))"

text \<open>
  \<open>find\<close> (lines 127 to 144; named \<open>find_sl\<close>, \<open>find\<close> being a function on
  lists). The query is issued without options (line 131); the follow-up call of line 135
  and those of the loop pass the options of \<open>find\<close>.
\<close>

definition find_sl ::
  "ServiceLayer \<Rightarrow> world \<Rightarrow> json \<Rightarrow> json \<Rightarrow>
     ((js_error + json list) \<times> ServiceLayer \<times> world) option"
where
  "find_sl this w q opts0 =
     (let opts = default_options opts0;
          (r, this0, w0) = refreshSession this w
      in case r of
           Inl e \<Rightarrow> Some (Inl e, this0, w0)
         | Inr u \<Rightarrow>
             (case query this0 w0 q JUndefined of
                (Inl e, this1, w1) \<Rightarrow> Some (Inl e, this1, w1)
              | (Inr page, this1, w1) \<Rightarrow>
                  (case property page ''value'' of
                     Inl e \<Rightarrow> Some (Inl e, this1, w1)
                   | Inr v \<Rightarrow>
                       (let result = concat_js [] v
                        in case property page nextLink of
                             Inl e \<Rightarrow> Some (Inl e, this1, w1)
                           | Inr link \<Rightarrow>
                               if truthy link then
                                 (case query this1 w1 link opts of
                                    (Inl e, this2, w2) \<Rightarrow> Some (Inl e, this2, w2)
                                  | (Inr page2, this2, w2) \<Rightarrow>
                                      (case property page2 ''value'' of
                                         Inl e \<Rightarrow> Some (Inl e, this2, w2)
                                       | Inr v2 \<Rightarrow>
                                           find_loop this2 w2 page2 opts (concat_js result v2)))
                               else Some (Inr result, this1, w1)))))"

subsection \<open>Resources\<close>

definition tagged :: "json \<Rightarrow> json" where
  "tagged m = JObj [(''error'', JBool True), (''message'', m)]"

text \<open>
  \<open>parseError\<close>. With a response it reads \<open>request.path\<close> for the console, which
  raises a \<open>TypeError\<close> when the caught value has no \<open>request\<close>.
\<close>

definition parseError :: "js_error \<Rightarrow> js_error + json" where
  "parseError e =
     (case response e of
        Some r \<Rightarrow>
          (case request e of
             None \<Rightarrow> Inl (TypeError ''Cannot read properties of undefined (reading path)'')
           | Some p \<Rightarrow> Inr (tagged (data r)))
      | None \<Rightarrow>
          (case request e of
             Some p \<Rightarrow> Inr (tagged (JStr ''ERROR REQUEST''))
           | None \<Rightarrow> Inr (tagged (JStr (message e)))))"

text \<open>
  \<open>get\<close>, \<open>put\<close>, \<open>patch\<close> and \<open>post\<close> (lines 152 to 202). The session check and
  the call are both inside \<open>try\<close>; whatever they raise goes to \<open>parseError\<close>, and its
  result is returned.
\<close>

definition get ::
  "ServiceLayer \<Rightarrow> world \<Rightarrow> string \<Rightarrow> json \<Rightarrow> (js_error + json) \<times> ServiceLayer \<times> world"
where
  "get this w resource opts0 =
     (let opts = default_options opts0;
          (r, this1, w1) = refreshSession this w
      in case r of
           Inl e \<Rightarrow> (parseError e, this1, w1)
         | Inr u \<Rightarrow>
             (case send this1 w1 GET (JStr resource) JUndefined opts of
                (Inl e, w2) \<Rightarrow> (parseError e, this1, w2)
              | (Inr result, w2) \<Rightarrow> (Inr (data result), this1, w2)))"

definition put ::
  "ServiceLayer \<Rightarrow> world \<Rightarrow> string \<Rightarrow> json \<Rightarrow> (js_error + json) \<times> ServiceLayer \<times> world"
where
  "put this w resource d =
     (let (r, this1, w1) = refreshSession this w
      in case r of
           Inl e \<Rightarrow> (parseError e, this1, w1)
         | Inr u \<Rightarrow>
             (case send this1 w1 PUT (JStr resource) d JUndefined of
                (Inl e, w2) \<Rightarrow> (parseError e, this1, w2)
              | (Inr result, w2) \<Rightarrow> (Inr (data result), this1, w2)))"

definition patch ::
  "ServiceLayer \<Rightarrow> world \<Rightarrow> string \<Rightarrow> json \<Rightarrow> (js_error + json) \<times> ServiceLayer \<times> world"
where
  "patch this w resource d =
     (let (r, this1, w1) = refreshSession this w
      in case r of
           Inl e \<Rightarrow> (parseError e, this1, w1)
         | Inr u \<Rightarrow>
             (case send this1 w1 PATCH (JStr resource) d JUndefined of
                (Inl e, w2) \<Rightarrow> (parseError e, this1, w2)
              | (Inr result, w2) \<Rightarrow> (Inr (data result), this1, w2)))"

definition post ::
  "ServiceLayer \<Rightarrow> world \<Rightarrow> string \<Rightarrow> json \<Rightarrow> (js_error + json) \<times> ServiceLayer \<times> world"
where
  "post this w resource d =
     (let (r, this1, w1) = refreshSession this w
      in case r of
           Inl e \<Rightarrow> (parseError e, this1, w1)
         | Inr u \<Rightarrow>
             (case send this1 w1 POST (JStr resource) d JUndefined of
                (Inl e, w2) \<Rightarrow> (parseError e, this1, w2)
              | (Inr result, w2) \<Rightarrow> (Inr (data result), this1, w2)))"

section \<open>Vocabulary of the statements\<close>

text \<open>
  The functions of this section are not part of the program. They name what the
  statements below are about.
\<close>

text \<open>
  Two worlds that run the same script. No method changes the script.
\<close>

definition same_script :: "world \<Rightarrow> world \<Rightarrow> bool" where
  "same_script w w' = (clock w' = clock w \<and> login_replies w' = login_replies w \<and> replies w' = replies w)"

text \<open>
  Every \<open>Login\<close> of the script succeeds: a re-login, when one is due, goes through.
\<close>

definition logins_succeed :: "world \<Rightarrow> bool" where
  "logins_succeed w = (\<forall>k. case login_replies w k of Inl e \<Rightarrow> False | Inr r \<Rightarrow> True)"

text \<open>
  A page is a body whose \<open>value\<close> is an array; \<open>items\<close> is that array and
  \<open>link_of\<close> the value of \<open>@odata.nextLink\<close> (\<open>undefined\<close> when the body has
  none).
\<close>

definition link_of :: "json \<Rightarrow> json" where
  "link_of p = (case property p nextLink of Inl e \<Rightarrow> JUndefined | Inr l \<Rightarrow> l)"

definition items :: "json \<Rightarrow> json list" where
  "items p = (case property p ''value'' of Inr (JArr vs) \<Rightarrow> vs | _ \<Rightarrow> [])"

definition is_page :: "json \<Rightarrow> bool" where
  "is_page p = (case property p ''value'' of Inr (JArr vs) \<Rightarrow> True | _ \<Rightarrow> False)"

text \<open>
  Call number \<open>k\<close> is answered with body \<open>p\<close> and a status that is accepted.
\<close>

definition served :: "(nat \<Rightarrow> raw_outcome) \<Rightarrow> nat \<Rightarrow> json \<Rightarrow> bool" where
  "served rs k p = (case rs k of Responded st b \<Rightarrow> validateStatus st \<and> b = p | _ \<Rightarrow> False)"

text \<open>
  After the page \<open>prev\<close>, the calls from number \<open>k\<close> on are answered with the
  pages \<open>ps\<close>: each page before the last carries a truthy next link, the last one
  does not. A chain is such a sequence of one page or more, starting with the answer to
  the query.
\<close>

fun follows :: "(nat \<Rightarrow> raw_outcome) \<Rightarrow> nat \<Rightarrow> json \<Rightarrow> json list \<Rightarrow> bool" where
  "follows rs k prev [] = (\<not> truthy (link_of prev))"
| "follows rs k prev (p # ps) =
     (truthy (link_of prev) \<and> served rs k p \<and> is_page p \<and> follows rs (Suc k) p ps)"

fun chain :: "(nat \<Rightarrow> raw_outcome) \<Rightarrow> nat \<Rightarrow> json list \<Rightarrow> bool" where
  "chain rs k [] = False"
| "chain rs k (p # ps) = (served rs k p \<and> is_page p \<and> follows rs (Suc k) p ps)"

text \<open>
  An outcome for which the transport raises an error, for a call with the options
  \<open>opts\<close>: no response, no request, or a status that the check in force refuses.
\<close>

definition refused :: "json \<Rightarrow> raw_outcome \<Rightarrow> bool" where
  "refused opts out = (case out of Responded st b \<Rightarrow> \<not> accepts opts st | _ \<Rightarrow> True)"

text \<open>
  The calls from number \<open>k\<close> on are answered with the pages \<open>ps\<close>, each with a
  truthy next link, and the call after them is refused. That call carries the options
  \<open>first\<close> when it is call number \<open>k\<close> itself and the options \<open>later\<close> otherwise.
\<close>

fun breaks :: "(nat \<Rightarrow> raw_outcome) \<Rightarrow> nat \<Rightarrow> json \<Rightarrow> json \<Rightarrow> json list \<Rightarrow> bool" where
  "breaks rs k first later [] = refused first (rs k)"
| "breaks rs k first later (p # ps) =
     (served rs k p \<and> is_page p \<and> truthy (link_of p) \<and> breaks rs (Suc k) later later ps)"

text \<open>
  A script that answers every call with a page that carries a truthy next link.
\<close>

definition endless :: "(nat \<Rightarrow> raw_outcome) \<Rightarrow> bool" where
  "endless rs = (\<forall>k. \<exists>p. served rs k p \<and> is_page p \<and> truthy (link_of p))"

text \<open>
  The three messages of section 4.4 of the specification: the body of the response, the
  text \<open>ERROR REQUEST\<close>, the message of the error.
\<close>

definition message_shape :: "raw_outcome \<Rightarrow> json" where
  "message_shape out =
     (case out of Responded st b \<Rightarrow> b | NoResponse m \<Rightarrow> JStr ''ERROR REQUEST''
      | SetupFailed m \<Rightarrow> JStr m)"

section \<open>Examples\<close>

text \<open>
  A session created at instant 0 with a timeout of 30 minutes, which expires at 29
  minutes (1740000 ms); a world whose clock shows one instant, whose logins all come to
  the same and whose server answers from a list; three pages of a listing, the second
  repeating a record of the first.
\<close>

definition config_ex :: ConfigArg where
  "config_ex =
     \<lparr>arg_port = Some 50000, arg_version = None, arg_debug = None,
      arg_host = Some ''https://sap/'', arg_company = Some ''SBODEMO'',
      arg_password = Some ''secret'', arg_username = Some ''manager''\<rparr>"

definition session_ex :: ServiceLayer where
  "session_ex =
     \<lparr>axios = Some \<lparr>baseURL = ''https://sap:50000/b1s/v2/'',
                     Cookie = Some ''B1SESSION=abc;CompanyDB=SBODEMO''\<rparr>,
      sessionTimeout = 30, startSessionTime = Some 0, endSessionTime = Some 1740000,
      config = \<lparr>port = 50000, version = ''v2'', debug = False, host = ''https://sap'',
        company = ''SBODEMO'', password = ''secret'', username = ''manager''\<rparr>\<rparr>"

definition world_ex :: "instant \<Rightarrow> (js_error + login_reply) \<Rightarrow> raw_outcome list \<Rightarrow> world" where
  "world_ex t login rs =
     \<lparr>clock = (\<lambda>k. t), ticks = 0, login_replies = (\<lambda>k. login), logins = [],
      replies = (\<lambda>k. if k < length rs then rs ! k else NoResponse ''Network Error''),
      calls = []\<rparr>"

definition granted_ex :: "js_error + login_reply" where
  "granted_ex = Inr \<lparr>SessionId = ''def'', SessionTimeout = 30\<rparr>"

definition refused_ex :: "js_error + login_reply" where
  "refused_ex = Inl \<lparr>response = None, request = Some (JStr ''Login''), message = ''Network Error''\<rparr>"

definition page1_ex :: json where
  "page1_ex = JObj [(''value'', JArr [JNum 1, JNum 2]), (''@odata.nextLink'', JStr ''Orders?$skip=2'')]"

definition page2_ex :: json where
  "page2_ex = JObj [(''value'', JArr [JNum 2, JNum 3]), (''@odata.nextLink'', JStr ''Orders?$skip=4'')]"

definition page3_ex :: json where
  "page3_ex = JObj [(''value'', JArr [JNum 3])]"

definition opts_ex :: json where
  "opts_ex = JObj [(''timeout'', JNum 5000)]"

section \<open>Sessions\<close>

subsection \<open>What createSession and refreshSession do to the object and the world\<close>

lemma spread_whole: "spread c (whole c) = c"
  by (simp add: spread_def whole_def)

lemma createSession_config:
  "config (fst (snd (createSession this w arg))) =
     (let merged = spread (config this) arg
      in if host merged \<noteq> [] \<and> last (host merged) = CHR ''/''
         then merged\<lparr>host := butlast (host merged)\<rparr> else merged)"
  by (simp add: createSession_def post_Login_def dayjs_def Let_def butlast_conv_take split: sum.splits prod.splits)

lemma createSession_axios:
  "\<exists>ax. axios (fst (snd (createSession this w arg))) = Some ax \<and>
        baseURL ax = host (config (fst (snd (createSession this w arg)))) @ '':'' @
          decimal (port (config (fst (snd (createSession this w arg))))) @ ''/b1s/'' @
          version (config (fst (snd (createSession this w arg)))) @ ''/''"
  by (simp add: createSession_def post_Login_def dayjs_def Let_def split: sum.splits prod.splits)

lemma createSession_world:
  "same_script w (snd (snd (createSession this w arg))) \<and>
   calls (snd (snd (createSession this w arg))) = calls w \<and>
   (\<exists>req. logins (snd (snd (createSession this w arg))) = logins w @ [req])"
  by (simp add: same_script_def createSession_def post_Login_def dayjs_def Let_def split: sum.splits prod.splits)

lemma createSession_result:
  "fst (createSession this w arg) =
     (case login_replies w (length (logins w)) of Inl e \<Rightarrow> Inl e | Inr r \<Rightarrow> Inr ())"
  by (simp add: createSession_def post_Login_def dayjs_def Let_def split: sum.splits prod.splits)

lemma createSession_granted:
  assumes "login_replies w (length (logins w)) = Inr reply"
  shows "\<exists>this' w' ax. createSession this w arg = (Inr (), this', w') \<and>
      sessionTimeout this' = SessionTimeout reply \<and>
      startSessionTime this' = Some (clock w (ticks w)) \<and>
      endSessionTime this' = add_minute (clock w (ticks w)) (SessionTimeout reply - 1) \<and>
      axios this' = Some ax \<and>
      Cookie ax = Some (''B1SESSION='' @ SessionId reply @ '';CompanyDB='' @ company (config this'))"
  using assms
  by (simp add: createSession_def post_Login_def dayjs_def Let_def)

lemma createSession_refused:
  assumes "login_replies w (length (logins w)) = Inl e"
  shows "fst (createSession this w arg) = Inl e"
  using assms by (simp add: createSession_result)

lemma refreshSession_fresh:
  assumes "\<not> isAfter (clock w (ticks w)) (endSessionTime this)"
  shows "refreshSession this w = (Inr (), this, w\<lparr>ticks := Suc (ticks w)\<rparr>)"
  using assms by (simp add: refreshSession_def dayjs_def)

lemma refreshSession_expired:
  assumes "isAfter (clock w (ticks w)) (endSessionTime this)"
  shows "refreshSession this w = createSession this (w\<lparr>ticks := Suc (ticks w)\<rparr>) (whole (config this))"
  using assms by (simp add: refreshSession_def dayjs_def)

lemma refreshSession_world:
  "same_script w (snd (snd (refreshSession this w))) \<and>
   calls (snd (snd (refreshSession this w))) = calls w"
proof (cases "isAfter (clock w (ticks w)) (endSessionTime this)")
  case True
  then show ?thesis
    using createSession_world [of "w\<lparr>ticks := Suc (ticks w)\<rparr>" this "whole (config this)"]
    by (simp add: refreshSession_expired same_script_def)
next
  case False
  then show ?thesis by (simp add: refreshSession_fresh same_script_def)
qed

lemma refreshSession_axios:
  "axios this \<noteq> None \<Longrightarrow> axios (fst (snd (refreshSession this w))) \<noteq> None"
  using createSession_axios [of this "w\<lparr>ticks := Suc (ticks w)\<rparr>" "whole (config this)"]
  by (cases "isAfter (clock w (ticks w)) (endSessionTime this)")
    (auto simp add: refreshSession_expired refreshSession_fresh)

lemma refreshSession_refused:
  assumes "login_replies w (length (logins w)) = Inl e"
    and "isAfter (clock w (ticks w)) (endSessionTime this)"
  shows "fst (refreshSession this w) = Inl e"
proof -
  have "login_replies (w\<lparr>ticks := Suc (ticks w)\<rparr>) (length (logins (w\<lparr>ticks := Suc (ticks w)\<rparr>))) = Inl e"
    using assms(1) by simp
  from createSession_refused [OF this] assms(2) show ?thesis
    by (simp add: refreshSession_expired)
qed

lemma same_script_logins: "same_script w w' \<Longrightarrow> logins_succeed w \<Longrightarrow> logins_succeed w'"
  by (simp add: same_script_def logins_succeed_def)

lemma refreshSession_succeeds:
  assumes "logins_succeed w" and "axios this \<noteq> None"
  shows "fst (refreshSession this w) = Inr () \<and> axios (fst (snd (refreshSession this w))) \<noteq> None"
proof (cases "isAfter (clock w (ticks w)) (endSessionTime this)")
  case True
  have "case login_replies w (length (logins w)) of Inl e \<Rightarrow> False | Inr r \<Rightarrow> True"
    using assms(1) unfolding logins_succeed_def by blast
  then have "fst (createSession this (w\<lparr>ticks := Suc (ticks w)\<rparr>) (whole (config this))) = Inr ()"
    by (simp add: createSession_result split: sum.splits)
  moreover have "axios (fst (snd (createSession this (w\<lparr>ticks := Suc (ticks w)\<rparr>) (whole (config this))))) \<noteq> None"
    using createSession_axios [of this "w\<lparr>ticks := Suc (ticks w)\<rparr>" "whole (config this)"] by auto
  ultimately show ?thesis using True by (simp add: refreshSession_expired)
next
  case False
  then show ?thesis using assms(2) by (simp add: refreshSession_fresh)
qed

lemma refreshSession_steady:
  assumes "logins_succeed w" and "axios this \<noteq> None"
  shows "\<exists>this' w'. refreshSession this w = (Inr (), this', w') \<and> logins_succeed w' \<and>
           axios this' \<noteq> None \<and> replies w' = replies w \<and> calls w' = calls w"
proof -
  obtain r this1 w1 where rs: "refreshSession this w = (r, this1, w1)"
    by (metis prod_cases3)
  from refreshSession_succeeds [OF assms] rs have "r = Inr ()" "axios this1 \<noteq> None"
    by auto
  moreover from refreshSession_world [of w this] rs have "same_script w w1" "calls w1 = calls w"
    by simp_all
  ultimately show ?thesis
    using rs same_script_logins [OF _ assms(1)] by (auto simp add: same_script_def)
qed

subsection \<open>The examples\<close>

lemma world_ex_sel:
  "calls (world_ex t l rs) = []" "logins (world_ex t l rs) = []" "ticks (world_ex t l rs) = 0"
  "clock (world_ex t l rs) k = t" "login_replies (world_ex t l rs) k = l"
  "replies (world_ex t l rs) k = (if k < length rs then rs ! k else NoResponse ''Network Error'')"
  by (simp_all add: world_ex_def)

lemma logins_succeed_ex: "logins_succeed (world_ex t granted_ex rs)"
  by (simp add: logins_succeed_def world_ex_def granted_ex_def)

text \<open>
  \<open>session_ex\<close> is the object after \<open>createSession\<close> on a new object, at instant 0,
  with the configuration \<open>config_ex\<close> and a login that grants the session \<open>abc\<close> for
  30 minutes.
\<close>

lemma session_ex_created:
  "fst (snd (createSession constructor (world_ex 0 (Inr \<lparr>SessionId = ''abc'', SessionTimeout = 30\<rparr>) [])
     config_ex)) = session_ex"
  by (simp add: createSession_def post_Login_def dayjs_def Let_def add_minute_def max_time_def
      spread_def constructor_def config_ex_def world_ex_def session_ex_def decimal.simps)

lemma axios_ex: "axios session_ex \<noteq> None"
  by (simp add: session_ex_def)

lemma refreshSession_ex: "fst (refreshSession session_ex (world_ex 0 l rs)) = Inr ()"
  by (simp add: refreshSession_def dayjs_def session_ex_def world_ex_def)

subsection \<open>Host, expiry and renewal\<close>

text \<open>
  Claim C8. Whether the login succeeds or not, \<open>createSession\<close> stores the host of
  the merged configuration with its last character removed when that character is a
  slash, and stores it unchanged when it does not end in a slash; the base address of
  the new instance is built from the stored host.
\<close>

theorem createSession_host:
  assumes "createSession this w arg = (r, this', w')"
  shows "(\<forall>h. host (spread (config this) arg) = h @ ''/'' \<longrightarrow> host (config this') = h) \<and>
     ((\<forall>h. host (spread (config this) arg) \<noteq> h @ ''/'') \<longrightarrow>
        host (config this') = host (spread (config this) arg)) \<and>
     map_option baseURL (axios this') =
       Some (host (config this') @ '':'' @ decimal (port (config this')) @ ''/b1s/'' @
             version (config this') @ ''/'')"
proof (intro conjI allI impI)
  fix h assume "host (spread (config this) arg) = h @ ''/''"
  then show "host (config this') = h"
    using createSession_config [of this w arg] assms by simp
next
  assume *: "\<forall>h. host (spread (config this) arg) \<noteq> h @ ''/''"
  have "\<not> (host (spread (config this) arg) \<noteq> [] \<and> last (host (spread (config this) arg)) = CHR ''/'')"
  proof
    assume "host (spread (config this) arg) \<noteq> [] \<and> last (host (spread (config this) arg)) = CHR ''/''"
    then have "host (spread (config this) arg) = butlast (host (spread (config this) arg)) @ ''/''"
      by (metis append_butlast_last_id)
    with * show False by blast
  qed
  then show "host (config this') = host (spread (config this) arg)"
    using createSession_config [of this w arg] assms by (auto simp add: Let_def)
next
  show "map_option baseURL (axios this') =
       Some (host (config this') @ '':'' @ decimal (port (config this')) @ ''/b1s/'' @
             version (config this') @ ''/'')"
    using createSession_axios [of this w arg] assms by auto
qed

text \<open>
  The host \<open>https://sap/\<close> is stored as \<open>https://sap\<close> and the base address is
  \<open>https://sap:50000/b1s/v2/\<close>; the host \<open>https://sap\<close> is stored as it is; of
  the two slashes of \<open>https://sap//\<close> one is removed, also when the login fails.
\<close>

theorem createSession_host_witness:
  "host (spread (config constructor) config_ex) = ''https://sap'' @ ''/'' \<and>
   host (config (fst (snd (createSession constructor (world_ex 0 granted_ex []) config_ex)))) = ''https://sap'' \<and>
   map_option baseURL (axios (fst (snd (createSession constructor (world_ex 0 granted_ex []) config_ex)))) =
     Some ''https://sap:50000/b1s/v2/'' \<and>
   (\<forall>h. host (spread (config session_ex) (whole (config session_ex))) \<noteq> h @ ''/'') \<and>
   host (config (fst (snd (createSession session_ex (world_ex 0 granted_ex []) (whole (config session_ex)))))) =
     ''https://sap'' \<and>
   host (config (fst (snd (createSession constructor (world_ex 0 refused_ex [])
     (config_ex\<lparr>arg_host := Some ''https://sap//''\<rparr>))))) = ''https://sap/''"
proof -
  let ?w = "world_ex 0 granted_ex []"
  let ?v = "world_ex 0 refused_ex []"
  let ?a = "config_ex\<lparr>arg_host := Some ''https://sap//''\<rparr>"
  have t: "createSession constructor ?v ?a =
      (fst (createSession constructor ?v ?a), fst (snd (createSession constructor ?v ?a)),
       snd (snd (createSession constructor ?v ?a)))"
    by simp
  have g: "host (spread (config constructor) ?a) = ''https://sap/'' @ ''/''"
    by (simp add: spread_def constructor_def config_ex_def)
  have c: "createSession constructor ?w config_ex =
      (fst (createSession constructor ?w config_ex),
       fst (snd (createSession constructor ?w config_ex)),
       snd (snd (createSession constructor ?w config_ex)))"
    by simp
  have s: "createSession session_ex ?w (whole (config session_ex)) =
      (fst (createSession session_ex ?w (whole (config session_ex))),
       fst (snd (createSession session_ex ?w (whole (config session_ex)))),
       snd (snd (createSession session_ex ?w (whole (config session_ex)))))"
    by simp
  have h: "host (spread (config constructor) config_ex) = ''https://sap'' @ ''/''"
    by (simp add: spread_def constructor_def config_ex_def)
  have p: "port (spread (config constructor) config_ex) = 50000"
    "version (spread (config constructor) config_ex) = ''v2''"
    by (simp_all add: spread_def constructor_def config_ex_def)
  have d: "decimal 50000 = ''50000''"
    by (simp add: decimal.simps)
  have n: "\<forall>h. host (spread (config session_ex) (whole (config session_ex))) \<noteq> h @ ''/''"
    by (simp add: spread_whole session_ex_def)
  have k: "port (config (fst (snd (createSession constructor ?w config_ex)))) = 50000"
    "version (config (fst (snd (createSession constructor ?w config_ex)))) = ''v2''"
    using p h by (simp_all add: createSession_config Let_def)
  from createSession_host [OF c] createSession_host [OF s] createSession_host [OF t] h n k d g
  show ?thesis
    by (auto simp add: spread_whole session_ex_def)
qed

text \<open>
  Beyond the range of dates the stored end of the session is the invalid date, whatever
  the timeout: with the clock at 0, a timeout of 145000000001 minutes is one such.
\<close>

lemma createSession_expiry_invalid:
  assumes "login_replies w (length (logins w)) = Inr reply"
    and "createSession this w arg = (r, this', w')"
    and "max_time < clock w (ticks w) + (SessionTimeout reply - 1) * 60000 \<or>
         clock w (ticks w) + (SessionTimeout reply - 1) * 60000 < - max_time"
  shows "endSessionTime this' = None"
  using createSession_granted [OF assms(1), of this arg] assms(2,3)
  by (auto simp add: add_minute_def)

lemma createSession_expiry_invalid_ex:
  "endSessionTime (fst (snd (createSession constructor
     (world_ex 0 (Inr \<lparr>SessionId = ''def'', SessionTimeout = 145000000001\<rparr>) []) config_ex))) = None"
  by (simp add: createSession_def post_Login_def dayjs_def Let_def add_minute_def max_time_def
      world_ex_def)

text \<open>
  Claim C5. After a login that succeeds with a timeout of \<open>n\<close> minutes, the start of
  the session is the instant the clock shows and the end is that instant plus
  \<open>n - 1\<close> minutes, to the millisecond, for every \<open>n\<close> (so for every \<open>n\<close> of at
  least 1) for which that end is a date, that is, lies within \<open>max_time\<close> =
  8640000000000000 ms of the epoch.
\<close>

theorem createSession_expiry:
  assumes "login_replies w (length (logins w)) = Inr reply"
    and "createSession this w arg = (r, this', w')"
    and "- max_time \<le> clock w (ticks w) + (SessionTimeout reply - 1) * 60000"
    and "clock w (ticks w) + (SessionTimeout reply - 1) * 60000 \<le> max_time"
  shows "r = Inr () \<and> sessionTimeout this' = SessionTimeout reply \<and>
      startSessionTime this' = Some (clock w (ticks w)) \<and>
      endSessionTime this' = Some (clock w (ticks w) + (SessionTimeout reply - 1) * 60000)"
  using createSession_granted [OF assms(1), of this arg] assms(2,3,4)
  by (auto simp add: add_minute_def)

text \<open>
  A login at instant 1000 ms with a timeout of 30 minutes ends at
  1000 + 29 * 60000 = 1741000 ms.
\<close>

theorem createSession_expiry_witness:
  "login_replies (world_ex 1000 granted_ex []) (length (logins (world_ex 1000 granted_ex []))) =
     Inr \<lparr>SessionId = ''def'', SessionTimeout = 30\<rparr> \<and>
   fst (createSession constructor (world_ex 1000 granted_ex []) config_ex) = Inr () \<and>
   startSessionTime (fst (snd (createSession constructor (world_ex 1000 granted_ex []) config_ex))) = Some 1000 \<and>
   endSessionTime (fst (snd (createSession constructor (world_ex 1000 granted_ex []) config_ex))) = Some 1741000 \<and>
   1000 + (30 - 1) * 60000 = (1741000 :: int) \<and> (1741000 :: int) \<le> max_time"
proof -
  let ?w = "world_ex 1000 granted_ex []"
  have l: "login_replies ?w (length (logins ?w)) = Inr \<lparr>SessionId = ''def'', SessionTimeout = 30\<rparr>"
    by (simp add: world_ex_sel granted_ex_def)
  have c: "createSession constructor ?w config_ex =
      (fst (createSession constructor ?w config_ex),
       fst (snd (createSession constructor ?w config_ex)),
       snd (snd (createSession constructor ?w config_ex)))"
    by simp
  have lo: "- max_time \<le> clock ?w (ticks ?w) +
      (SessionTimeout \<lparr>SessionId = ''def'', SessionTimeout = 30\<rparr> - 1) * 60000"
    by (simp add: world_ex_sel max_time_def)
  have hi: "clock ?w (ticks ?w) +
      (SessionTimeout \<lparr>SessionId = ''def'', SessionTimeout = 30\<rparr> - 1) * 60000 \<le> max_time"
    by (simp add: world_ex_sel max_time_def)
  from createSession_expiry [OF l c lo hi] l show ?thesis by (simp add: world_ex_sel max_time_def)
qed

text \<open>
  Claim C1, as the code has it. For a session with expiry instant \<open>t\<close>,
  \<open>refreshSession\<close> called at or before \<open>t\<close> issues no login call and leaves
  every field of the object unchanged; called strictly after \<open>t\<close> it issues exactly
  one login call, raises the error of that call if it fails, and otherwise replaces the
  timeout, the start and end of the session and the cookie by those of the new login.
  The start is the clock reading taken after the login; the end is what \<open>add\<close> makes
  of the start and the timeout less one minute, which is the start plus that many
  minutes whenever that is a date.
\<close>

theorem refreshSession_expiry:
  assumes "endSessionTime this = Some t" and "refreshSession this w = (r, this', w')"
  shows "(clock w (ticks w) \<le> t \<longrightarrow> r = Inr () \<and> this' = this \<and> logins w' = logins w) \<and>
     (t < clock w (ticks w) \<longrightarrow>
        (\<exists>req. logins w' = logins w @ [req]) \<and>
        (case login_replies w (length (logins w)) of
           Inl e \<Rightarrow> r = Inl e
         | Inr reply \<Rightarrow>
             r = Inr () \<and> sessionTimeout this' = SessionTimeout reply \<and>
             startSessionTime this' = Some (clock w (Suc (ticks w))) \<and>
             endSessionTime this' =
               add_minute (clock w (Suc (ticks w))) (SessionTimeout reply - 1) \<and>
             (- max_time \<le> clock w (Suc (ticks w)) + (SessionTimeout reply - 1) * 60000 \<and>
              clock w (Suc (ticks w)) + (SessionTimeout reply - 1) * 60000 \<le> max_time \<longrightarrow>
                endSessionTime this' =
                  Some (clock w (Suc (ticks w)) + (SessionTimeout reply - 1) * 60000)) \<and>
             map_option Cookie (axios this') =
               Some (Some (''B1SESSION='' @ SessionId reply @ '';CompanyDB='' @
                           company (config this)))))"
proof (intro conjI impI)
  assume "clock w (ticks w) \<le> t"
  with assms show "r = Inr ()" "this' = this" "logins w' = logins w"
    by (auto simp add: refreshSession_fresh)
next
  assume late: "t < clock w (ticks w)"
  let ?w1 = "w\<lparr>ticks := Suc (ticks w)\<rparr>"
  from late assms have cs: "createSession this ?w1 (whole (config this)) = (r, this', w')"
    by (simp add: refreshSession_expired)
  from createSession_world [of ?w1 this "whole (config this)"] cs
  show "\<exists>req. logins w' = logins w @ [req]" by simp
  show "case login_replies w (length (logins w)) of
           Inl e \<Rightarrow> r = Inl e
         | Inr reply \<Rightarrow>
             r = Inr () \<and> sessionTimeout this' = SessionTimeout reply \<and>
             startSessionTime this' = Some (clock w (Suc (ticks w))) \<and>
             endSessionTime this' =
               add_minute (clock w (Suc (ticks w))) (SessionTimeout reply - 1) \<and>
             (- max_time \<le> clock w (Suc (ticks w)) + (SessionTimeout reply - 1) * 60000 \<and>
              clock w (Suc (ticks w)) + (SessionTimeout reply - 1) * 60000 \<le> max_time \<longrightarrow>
                endSessionTime this' =
                  Some (clock w (Suc (ticks w)) + (SessionTimeout reply - 1) * 60000)) \<and>
             map_option Cookie (axios this') =
               Some (Some (''B1SESSION='' @ SessionId reply @ '';CompanyDB='' @
                           company (config this)))"
  proof (cases "login_replies w (length (logins w))")
    case (Inl e)
    then have "login_replies ?w1 (length (logins ?w1)) = Inl e" by simp
    from createSession_refused [OF this, of this "whole (config this)"] cs Inl
    show ?thesis by simp
  next
    case (Inr reply)
    then have "login_replies ?w1 (length (logins ?w1)) = Inr reply" by simp
    from createSession_granted [OF this, of this "whole (config this)"] cs
    have "r = Inr ()" "sessionTimeout this' = SessionTimeout reply"
      "startSessionTime this' = Some (clock w (Suc (ticks w)))"
      "endSessionTime this' = add_minute (clock w (Suc (ticks w))) (SessionTimeout reply - 1)"
      "map_option Cookie (axios this') =
         Some (Some (''B1SESSION='' @ SessionId reply @ '';CompanyDB='' @ company (config this')))"
      by auto
    moreover have "company (config this') = company (config this)"
      using createSession_config [of this ?w1 "whole (config this)"] cs
      by (simp add: spread_whole Let_def)
    ultimately show ?thesis using Inr by (simp add: add_minute_def)
  qed
qed

text \<open>
  The scenario of the specification: session created at 0 with a timeout of 30 minutes.
  A call at 28 minutes logs in zero times and changes nothing; a call at 30 minutes logs
  in once and the session then ends at 59 minutes.
\<close>

theorem refreshSession_expiry_witness:
  "endSessionTime session_ex = Some 1740000 \<and>
   fst (refreshSession session_ex (world_ex 1680000 granted_ex [])) = Inr () \<and>
   fst (snd (refreshSession session_ex (world_ex 1680000 granted_ex []))) = session_ex \<and>
   logins (snd (snd (refreshSession session_ex (world_ex 1680000 granted_ex [])))) = [] \<and>
   fst (refreshSession session_ex (world_ex 1800000 granted_ex [])) = Inr () \<and>
   length (logins (snd (snd (refreshSession session_ex (world_ex 1800000 granted_ex []))))) = 1 \<and>
   startSessionTime (fst (snd (refreshSession session_ex (world_ex 1800000 granted_ex [])))) =
     Some 1800000 \<and>
   endSessionTime (fst (snd (refreshSession session_ex (world_ex 1800000 granted_ex [])))) =
     Some 3540000 \<and>
   map_option Cookie (axios (fst (snd (refreshSession session_ex (world_ex 1800000 granted_ex []))))) =
     Some (Some ''B1SESSION=def;CompanyDB=SBODEMO'')"
proof -
  let ?early = "world_ex 1680000 granted_ex []"
  let ?late = "world_ex 1800000 granted_ex []"
  have e: "endSessionTime session_ex = Some 1740000" by (simp add: session_ex_def)
  have a: "refreshSession session_ex ?early =
      (fst (refreshSession session_ex ?early), fst (snd (refreshSession session_ex ?early)),
       snd (snd (refreshSession session_ex ?early)))"
    by simp
  have b: "refreshSession session_ex ?late =
      (fst (refreshSession session_ex ?late), fst (snd (refreshSession session_ex ?late)),
       snd (snd (refreshSession session_ex ?late)))"
    by simp
  have c: "company (config session_ex) = ''SBODEMO''" by (simp add: session_ex_def)
  from refreshSession_expiry [OF e a] refreshSession_expiry [OF e b] e c show ?thesis
    by (auto simp add: world_ex_sel granted_ex_def add_minute_def max_time_def)
qed

text \<open>
  Claim C1 as stated fails at the expiry instant itself: \<open>isAfter\<close> is strict, so a
  call at exactly 1740000 ms issues no login call and replaces nothing.
\<close>

theorem refreshSession_at_expiry_instant:
  "endSessionTime session_ex = Some 1740000 \<and>
   clock (world_ex 1740000 granted_ex []) (ticks (world_ex 1740000 granted_ex [])) = 1740000 \<and>
   logins (snd (snd (refreshSession session_ex (world_ex 1740000 granted_ex [])))) = [] \<and>
   fst (snd (refreshSession session_ex (world_ex 1740000 granted_ex []))) = session_ex"
  by (simp add: refreshSession_def dayjs_def session_ex_def world_ex_def)

section \<open>Queries and pages\<close>

subsection \<open>One query\<close>

lemma query_steady:
  assumes "logins_succeed w" and "axios this \<noteq> None"
  shows "\<exists>this' w1 ax. same_script w w1 \<and> calls w1 = calls w \<and> axios this' = Some ax \<and>
     query this w u opts =
       ((case settle \<lparr>via = ax, http_method = GET, url = u, payload = JUndefined,
                      options = default_options opts\<rparr> (replies w (length (calls w))) of
           Inl e \<Rightarrow> Inl e | Inr r \<Rightarrow> Inr (data r)),
        this',
        w1\<lparr>calls := calls w @ [\<lparr>via = ax, http_method = GET, url = u, payload = JUndefined,
                                  options = default_options opts\<rparr>]\<rparr>)"
proof -
  obtain r this1 w1 where rs: "refreshSession this w = (r, this1, w1)"
    by (metis prod_cases3)
  from refreshSession_succeeds [OF assms] rs obtain ax where r: "r = Inr ()" and ax: "axios this1 = Some ax"
    by auto
  from refreshSession_world [of w this] rs have w1: "same_script w w1" "calls w1 = calls w"
    by simp_all
  then have rep: "replies w1 = replies w" by (simp add: same_script_def)
  have "query this w u opts =
       ((case settle \<lparr>via = ax, http_method = GET, url = u, payload = JUndefined,
                      options = default_options opts\<rparr> (replies w (length (calls w))) of
           Inl e \<Rightarrow> Inl e | Inr r \<Rightarrow> Inr (data r)),
        this1,
        w1\<lparr>calls := calls w @ [\<lparr>via = ax, http_method = GET, url = u, payload = JUndefined,
                                  options = default_options opts\<rparr>]\<rparr>)"
    by (simp add: query_def rs r ax send_def call_def Let_def w1 rep split: sum.splits)
  with w1 ax show ?thesis by blast
qed

lemma is_page_value: "is_page p \<Longrightarrow> property p ''value'' = Inr (JArr (items p))"
  by (auto simp add: is_page_def items_def split: sum.splits json.splits)

lemma is_page_link: "is_page p \<Longrightarrow> property p nextLink = Inr (link_of p)"
  by (cases p) (auto simp add: is_page_def link_of_def)

lemma query_served:
  assumes "logins_succeed w" and "axios this \<noteq> None" and "served (replies w) (length (calls w)) p"
  shows "\<exists>this' w' req. query this w u opts = (Inr p, this', w') \<and> logins_succeed w' \<and> axios this' \<noteq> None \<and>
      replies w' = replies w \<and> calls w' = calls w @ [req] \<and> url req = u \<and> http_method req = GET \<and>
      options req = default_options opts"
proof -
  from query_steady [OF assms(1,2), of u opts] obtain this' w1 ax where
    *: "same_script w w1" "calls w1 = calls w" "axios this' = Some ax"
     "query this w u opts =
       ((case settle \<lparr>via = ax, http_method = GET, url = u, payload = JUndefined,
                      options = default_options opts\<rparr> (replies w (length (calls w))) of
           Inl e \<Rightarrow> Inl e | Inr r \<Rightarrow> Inr (data r)),
        this',
        w1\<lparr>calls := calls w @ [\<lparr>via = ax, http_method = GET, url = u, payload = JUndefined,
                                  options = default_options opts\<rparr>]\<rparr>)"
    by blast
  from assms(3) obtain st where st: "replies w (length (calls w)) = Responded st p"
    "accepts (default_options opts) st"
    by (auto simp add: served_def accepts_def split: raw_outcome.splits option.splits)
  have "logins_succeed (w1\<lparr>calls := calls w @ [\<lparr>via = ax, http_method = GET, url = u, payload = JUndefined,
                                  options = default_options opts\<rparr>]\<rparr>)"
    using same_script_logins [OF *(1) assms(1)] by (simp add: logins_succeed_def)
  moreover have "replies w1 = replies w" using *(1) by (simp add: same_script_def)
  ultimately show ?thesis using * st by (intro exI [of _ this'] exI [of _ "w1\<lparr>calls := calls w @ [\<lparr>via = ax, http_method = GET, url = u, payload = JUndefined,
                                  options = default_options opts\<rparr>]\<rparr>"] exI [of _ "\<lparr>via = ax, http_method = GET, url = u, payload = JUndefined,
                                  options = default_options opts\<rparr>"]) simp
qed

lemma settle_refused: "refused (options req) out \<Longrightarrow> \<exists>e. settle req out = Inl e"
  by (cases out) (auto simp add: refused_def)

lemma default_options_idem: "default_options (default_options opts) = default_options opts"
  by (simp add: default_options_def)

lemma accepts_widens: "accepts JUndefined st \<Longrightarrow> accepts opts st"
  by (auto simp add: accepts_def split: option.splits)

lemma accepts_default: "accepts (JObj []) st = accepts JUndefined st"
  by (simp add: accepts_def)

lemma query_failed:
  assumes "logins_succeed w" and "axios this \<noteq> None"
    and "refused (default_options opts) (replies w (length (calls w)))"
  shows "\<exists>e this' w'. query this w u opts = (Inl e, this', w') \<and>
           settle (last (calls w')) (replies w (length (calls w))) = Inl e \<and>
           url (last (calls w')) = u"
proof -
  from query_steady [OF assms(1,2), of u opts] obtain this' w1 ax where
    *: "query this w u opts =
       ((case settle \<lparr>via = ax, http_method = GET, url = u, payload = JUndefined,
                      options = default_options opts\<rparr> (replies w (length (calls w))) of
           Inl e \<Rightarrow> Inl e | Inr r \<Rightarrow> Inr (data r)),
        this',
        w1\<lparr>calls := calls w @ [\<lparr>via = ax, http_method = GET, url = u, payload = JUndefined,
                                  options = default_options opts\<rparr>]\<rparr>)"
    by blast
  from settle_refused [of "\<lparr>via = ax, http_method = GET, url = u, payload = JUndefined,
              options = default_options opts\<rparr>"] assms(3) obtain e where
    "settle \<lparr>via = ax, http_method = GET, url = u, payload = JUndefined,
              options = default_options opts\<rparr> (replies w (length (calls w))) = Inl e"
    by auto
  with * show ?thesis by simp
qed

lemma query_relogin_refused:
  assumes "fst (refreshSession this w) = Inl e"
  shows "fst (query this w q opts) = Inl e"
proof -
  obtain r this1 w1 where rs: "refreshSession this w = (r, this1, w1)"
    by (metis prod_cases3)
  with assms have "r = Inl e" by simp
  with rs show ?thesis by (simp add: query_def Let_def)
qed

subsection \<open>The loop of find\<close>

lemma find_loop_follows:
  assumes "logins_succeed w" and "axios this \<noteq> None" and "is_page prev"
    and "follows (replies w) (length (calls w)) prev ps"
  shows "\<exists>this' w' reqs. find_loop this w prev opts acc = Some (Inr (acc @ concat (map items ps)), this', w') \<and>
      calls w' = calls w @ reqs \<and> map url reqs = map link_of (butlast (prev # ps)) \<and>
      map options reqs = replicate (length ps) (default_options opts) \<and>
      map http_method reqs = replicate (length ps) GET"
  using assms
proof (induction ps arbitrary: this w prev acc)
  case Nil
  then show ?case
    by (subst find_loop.simps) (simp add: is_page_link)
next
  case (Cons p ps)
  from Cons.prems(4) have link: "truthy (link_of prev)" and srv: "served (replies w) (length (calls w)) p"
    and pg: "is_page p" and rest: "follows (replies w) (Suc (length (calls w))) p ps"
    by simp_all
  from query_served [OF Cons.prems(1,2) srv, of "link_of prev" opts] obtain this1 w1 req where
    q: "query this w (link_of prev) opts = (Inr p, this1, w1)" and inv: "logins_succeed w1" "axios this1 \<noteq> None"
    and w1: "replies w1 = replies w" "calls w1 = calls w @ [req]" and req: "url req = link_of prev" "http_method req = GET"
      "options req = default_options opts"
    by blast
  from rest w1 have "follows (replies w1) (length (calls w1)) p ps" by simp
  from Cons.IH [OF inv pg this, of "acc @ items p"] obtain this' w' reqs where
    ih: "find_loop this1 w1 p opts (acc @ items p) = Some (Inr ((acc @ items p) @ concat (map items ps)), this', w')"
      "calls w' = calls w1 @ reqs" "map url reqs = map link_of (butlast (p # ps))"
      "map options reqs = replicate (length ps) (default_options opts)"
      "map http_method reqs = replicate (length ps) GET"
    by blast
  have "find_loop this w prev opts acc = find_loop this1 w1 p opts (acc @ items p)"
    by (subst find_loop.simps) (simp add: is_page_link [OF Cons.prems(3)] link q is_page_value [OF pg])
  with ih w1 req show ?case
    by (intro exI [of _ this'] exI [of _ w'] exI [of _ "req # reqs"]) simp
qed

lemma find_loop_breaks:
  assumes "logins_succeed w" and "axios this \<noteq> None" and "is_page prev" and "truthy (link_of prev)"
    and "breaks (replies w) (length (calls w)) (default_options opts) (default_options opts) ps"
  shows "\<exists>e this' w'. find_loop this w prev opts acc = Some (Inl e, this', w') \<and>
           settle (last (calls w')) (replies w (length (calls w) + length ps)) = Inl e \<and>
           url (last (calls w')) = link_of (last (prev # ps))"
  using assms
proof (induction ps arbitrary: this w prev acc)
  case Nil
  from query_failed [OF Nil.prems(1,2), where u = "link_of prev" and opts = opts] Nil.prems(5)
  obtain e this' w' where
    "query this w (link_of prev) opts = (Inl e, this', w')"
    "settle (last (calls w')) (replies w (length (calls w))) = Inl e"
    "url (last (calls w')) = link_of prev"
    by auto
  then show ?case
    by (subst find_loop.simps) (simp add: is_page_link [OF Nil.prems(3)] Nil.prems(4))
next
  case (Cons p ps)
  from Cons.prems(5) have srv: "served (replies w) (length (calls w)) p"
    and pg: "is_page p" and link: "truthy (link_of p)"
    and rest: "breaks (replies w) (Suc (length (calls w))) (default_options opts) (default_options opts) ps"
    by simp_all
  from query_served [OF Cons.prems(1,2) srv, of "link_of prev" opts] obtain this1 w1 req where
    q: "query this w (link_of prev) opts = (Inr p, this1, w1)" and inv: "logins_succeed w1" "axios this1 \<noteq> None"
    and w1: "replies w1 = replies w" "calls w1 = calls w @ [req]"
    by blast
  from rest w1 have "breaks (replies w1) (length (calls w1)) (default_options opts) (default_options opts) ps"
    by simp
  from Cons.IH [OF inv pg link this, of "acc @ items p"] obtain e this' w' where
    "find_loop this1 w1 p opts (acc @ items p) = Some (Inl e, this', w')"
    "settle (last (calls w')) (replies w1 (length (calls w1) + length ps)) = Inl e"
    "url (last (calls w')) = link_of (last (p # ps))"
    by blast
  moreover have "find_loop this w prev opts acc = find_loop this1 w1 p opts (acc @ items p)"
    by (subst find_loop.simps)
      (simp add: is_page_link [OF Cons.prems(3)] Cons.prems(4) q is_page_value [OF pg])
  ultimately show ?case using w1 by simp
qed

lemma find_chain:
  assumes "logins_succeed w" and "axios this \<noteq> None"
    and "chain (replies w) (length (calls w)) pages"
  shows "\<exists>this' w' reqs. find_sl this w q opts = Some (Inr (concat (map items pages)), this', w') \<and>
      calls w' = calls w @ reqs \<and> map url reqs = q # map link_of (butlast pages) \<and>
      map options reqs = JObj [] # replicate (length pages - 1) (default_options opts) \<and>
      map http_method reqs = replicate (length pages) GET"
proof -
  from assms(3) obtain p ps where pages: "pages = p # ps" by (cases pages) simp_all
  with assms(3) have srv: "served (replies w) (length (calls w)) p" and pg: "is_page p"
    and rest: "follows (replies w) (Suc (length (calls w))) p ps"
    by simp_all
  from refreshSession_steady [OF assms(1,2)] obtain this0 w0 where
    r0: "refreshSession this w = (Inr (), this0, w0)" and inv0: "logins_succeed w0" "axios this0 \<noteq> None"
    and w0: "replies w0 = replies w" "calls w0 = calls w"
    by blast
  from srv w0 have "served (replies w0) (length (calls w0)) p" by simp
  from query_served [OF inv0 this, of q JUndefined] obtain this1 w1 req1 where
    q1: "query this0 w0 q JUndefined = (Inr p, this1, w1)" and inv1: "logins_succeed w1" "axios this1 \<noteq> None"
    and w1: "replies w1 = replies w" "calls w1 = calls w @ [req1]"
    and req1: "url req1 = q" "http_method req1 = GET" "options req1 = JObj []"
    using w0 by (auto simp add: default_options_def)
  show ?thesis
  proof (cases ps)
    case Nil
    with rest have "\<not> truthy (link_of p)" by simp
    then have "find_sl this w q opts = Some (Inr (items p), this1, w1)"
      by (simp add: find_sl_def r0 q1 is_page_value [OF pg] is_page_link [OF pg])
    with Nil pages w1 req1 show ?thesis
      by (intro exI [of _ this1] exI [of _ w1] exI [of _ "[req1]"]) simp
  next
    case (Cons p2 ps2)
    with rest have link: "truthy (link_of p)" and srv2: "served (replies w) (Suc (length (calls w))) p2"
      and pg2: "is_page p2" and rest2: "follows (replies w) (Suc (Suc (length (calls w)))) p2 ps2"
      by simp_all
    from srv2 w1 have "served (replies w1) (length (calls w1)) p2" by simp
    from query_served [OF inv1 this, of "link_of p" "default_options opts"] obtain this2 w2 req2 where
      q2: "query this1 w1 (link_of p) (default_options opts) = (Inr p2, this2, w2)"
      and inv2: "logins_succeed w2" "axios this2 \<noteq> None"
      and w2: "replies w2 = replies w" "calls w2 = calls w @ [req1, req2]"
      and req2: "url req2 = link_of p" "http_method req2 = GET" "options req2 = default_options opts"
      using w1 by (auto simp add: default_options_def)
    from rest2 w2 have "follows (replies w2) (length (calls w2)) p2 ps2" by simp
    from find_loop_follows [OF inv2 pg2 this, of "default_options opts" "items p @ items p2"]
    obtain this' w' reqs where
      loop: "find_loop this2 w2 p2 (default_options opts) (items p @ items p2) =
          Some (Inr ((items p @ items p2) @ concat (map items ps2)), this', w')"
        "calls w' = calls w2 @ reqs" "map url reqs = map link_of (butlast (p2 # ps2))"
        "map options reqs = replicate (length ps2) (default_options opts)"
        "map http_method reqs = replicate (length ps2) GET"
      by (auto simp add: default_options_def)
    have "find_sl this w q opts =
        find_loop this2 w2 p2 (default_options opts) (items p @ items p2)"
      by (simp add: find_sl_def r0 q1 is_page_value [OF pg] is_page_link [OF pg] link q2
          is_page_value [OF pg2])
    with loop Cons pages w2 req1 req2 show ?thesis
      by (intro exI [of _ this'] exI [of _ w'] exI [of _ "req1 # req2 # reqs"]) simp
  qed
qed

lemma find_breaks:
  assumes "logins_succeed w" and "axios this \<noteq> None"
    and "breaks (replies w) (length (calls w)) (JObj []) (default_options opts) ps"
  shows "\<exists>e this' w'. find_sl this w q opts = Some (Inl e, this', w') \<and>
           settle (last (calls w')) (replies w (length (calls w) + length ps)) = Inl e \<and>
           url (last (calls w')) = last (q # map link_of ps)"
proof -
  from refreshSession_steady [OF assms(1,2)] obtain this0 w0 where
    r0: "refreshSession this w = (Inr (), this0, w0)" and inv0: "logins_succeed w0" "axios this0 \<noteq> None"
    and w0: "replies w0 = replies w" "calls w0 = calls w"
    by blast
  show ?thesis
  proof (cases ps)
    case Nil
    with assms(3) w0 have "refused (default_options JUndefined) (replies w0 (length (calls w0)))"
      by (simp add: default_options_def)
    from query_failed [OF inv0 this, of q] obtain e this' w' where
      "query this0 w0 q JUndefined = (Inl e, this', w')"
      "settle (last (calls w')) (replies w0 (length (calls w0))) = Inl e"
      "url (last (calls w')) = q"
      by blast
    with Nil w0 show ?thesis by (simp add: find_sl_def r0)
  next
    case (Cons p ps1)
    with assms(3) have srv: "served (replies w) (length (calls w)) p" and pg: "is_page p"
      and link: "truthy (link_of p)"
      and rest: "breaks (replies w) (Suc (length (calls w))) (default_options opts) (default_options opts) ps1"
      by simp_all
    from srv w0 have "served (replies w0) (length (calls w0)) p" by simp
    from query_served [OF inv0 this, of q JUndefined] obtain this1 w1 req1 where
      q1: "query this0 w0 q JUndefined = (Inr p, this1, w1)" and inv1: "logins_succeed w1" "axios this1 \<noteq> None"
      and w1: "replies w1 = replies w" "calls w1 = calls w @ [req1]"
      using w0 by auto
    show ?thesis
    proof (cases ps1)
      case Nil
      with rest w1 have "refused (default_options (default_options opts)) (replies w1 (length (calls w1)))"
        by (simp add: default_options_idem)
      from query_failed [OF inv1 this, of "link_of p"] obtain e this' w' where
        "query this1 w1 (link_of p) (default_options opts) = (Inl e, this', w')"
        "settle (last (calls w')) (replies w1 (length (calls w1))) = Inl e"
        "url (last (calls w')) = link_of p"
        by blast
      with Nil Cons w1 show ?thesis
        by (simp add: find_sl_def r0 q1 is_page_value [OF pg] is_page_link [OF pg] link)
    next
      case (Cons p2 ps2)
      with rest have srv2: "served (replies w) (Suc (length (calls w))) p2" and pg2: "is_page p2"
        and link2: "truthy (link_of p2)"
        and rest2: "breaks (replies w) (Suc (Suc (length (calls w)))) (default_options opts) (default_options opts) ps2"
        by simp_all
      from srv2 w1 have "served (replies w1) (length (calls w1)) p2" by simp
      from query_served [OF inv1 this, of "link_of p" "default_options opts"] obtain this2 w2 req2 where
        q2: "query this1 w1 (link_of p) (default_options opts) = (Inr p2, this2, w2)"
        and inv2: "logins_succeed w2" "axios this2 \<noteq> None"
        and w2: "replies w2 = replies w" "calls w2 = calls w @ [req1, req2]"
        using w1 by auto
      from rest2 w2 have "breaks (replies w2) (length (calls w2))
          (default_options (default_options opts)) (default_options (default_options opts)) ps2"
        by (simp add: default_options_idem)
      from find_loop_breaks [OF inv2 pg2 link2 this, of "items p @ items p2"]
      obtain e this' w' where
        "find_loop this2 w2 p2 (default_options opts) (items p @ items p2) = Some (Inl e, this', w')"
        "settle (last (calls w')) (replies w2 (length (calls w2) + length ps2)) = Inl e"
        "url (last (calls w')) = link_of (last (p2 # ps2))"
        by blast
      moreover have "find_sl this w q opts =
          find_loop this2 w2 p2 (default_options opts) (items p @ items p2)"
        by (simp add: find_sl_def r0 q1 is_page_value [OF pg] is_page_link [OF pg] link q2
            is_page_value [OF pg2])
      ultimately show ?thesis using Cons \<open>ps = p # ps1\<close> w2 by (simp add: last_map)
    qed
  qed
qed

lemma find_relogin_refused:
  assumes "fst (refreshSession this w) = Inl e"
  shows "map_option fst (find_sl this w q opts) = Some (Inl e)"
proof -
  obtain r this1 w1 where rs: "refreshSession this w = (r, this1, w1)"
    by (metis prod_cases3)
  with assms have "r = Inl e" by simp
  with rs show ?thesis by (simp add: find_sl_def Let_def)
qed

text \<open>
  The run that \<open>None\<close> stands for: when every page carries a truthy next link,
  \<open>find\<close> never returns.
\<close>

lemma find_loop_endless:
  assumes "find_loop this w prev opts acc = Some r"
  shows "\<not> (logins_succeed w \<and> axios this \<noteq> None \<and> is_page prev \<and> truthy (link_of prev) \<and>
            endless (replies w))"
  using assms
proof (induct rule: find_loop.raw_induct [rotated 1, consumes 1, case_names step])
  case (step find_loop' this w prev opts acc r)
  show ?case
  proof
    assume inv: "logins_succeed w \<and> axios this \<noteq> None \<and> is_page prev \<and> truthy (link_of prev) \<and>
            endless (replies w)"
    then obtain p where p: "served (replies w) (length (calls w)) p" "is_page p" "truthy (link_of p)"
      unfolding endless_def by blast
    from inv query_served [OF _ _ p(1), of this "link_of prev" opts] obtain this1 w1 where
      q: "query this w (link_of prev) opts = (Inr p, this1, w1)" and inv1: "logins_succeed w1" "axios this1 \<noteq> None"
      "replies w1 = replies w"
      by blast
    from step(2) inv p have "find_loop' this1 w1 p opts (acc @ items p) = Some r"
      by (simp add: is_page_link q is_page_value)
    from step(1) [OF this] inv inv1 p show False by simp
  qed
qed

lemma find_endless:
  assumes "logins_succeed w" and "axios this \<noteq> None" and "endless (replies w)"
  shows "find_sl this w q opts = None"
proof -
  from refreshSession_steady [OF assms(1,2)] obtain this0 w0 where
    r0: "refreshSession this w = (Inr (), this0, w0)" and inv0: "logins_succeed w0" "axios this0 \<noteq> None"
    and w0: "replies w0 = replies w"
    by blast
  from assms(3) w0 obtain p where p: "served (replies w0) (length (calls w0)) p" "is_page p"
    "truthy (link_of p)"
    unfolding endless_def by metis
  from query_served [OF inv0 p(1), of q JUndefined] obtain this1 w1 where
    q1: "query this0 w0 q JUndefined = (Inr p, this1, w1)" and inv1: "logins_succeed w1" "axios this1 \<noteq> None"
    and w1: "replies w1 = replies w"
    using w0 by auto
  from assms(3) w1 obtain p2 where p2: "served (replies w1) (length (calls w1)) p2" "is_page p2"
    "truthy (link_of p2)"
    unfolding endless_def by metis
  from query_served [OF inv1 p2(1), of "link_of p" "default_options opts"] obtain this2 w2 where
    q2: "query this1 w1 (link_of p) (default_options opts) = (Inr p2, this2, w2)"
    and inv2: "logins_succeed w2" "axios this2 \<noteq> None" and w2: "replies w2 = replies w"
    using w1 by auto
  have "find_loop this2 w2 p2 (default_options opts) (items p @ items p2) = None"
  proof (cases "find_loop this2 w2 p2 (default_options opts) (items p @ items p2)")
    case (Some r)
    from find_loop_endless [OF this] inv2 p2 w2 assms(3) show ?thesis by simp
  qed simp
  then show ?thesis
    by (simp add: find_sl_def r0 q1 is_page_value [OF p(2)] is_page_link [OF p(2)] p(3) q2
        is_page_value [OF p2(2)])
qed

lemmas page_defs = is_page_def items_def link_of_def served_def validateStatus_def nextLink_def
  refused_def accepts_def

subsection \<open>Pagination\<close>

text \<open>
  Claim C7. On an object that has its instance, with every re-login that falls due
  succeeding: when the response to the query carries no \<open>@odata.nextLink\<close> (or one
  that is not truthy), \<open>find\<close> returns the \<open>value\<close> array of that response as it
  is.
\<close>

theorem find_single_page:
  assumes "axios this \<noteq> None" and "logins_succeed w"
    and "replies w (length (calls w)) = Responded st page" and "validateStatus st"
    and "property page ''value'' = Inr (JArr vs)"
    and "property page nextLink = Inr link" and "\<not> truthy link"
  shows "\<exists>this' w'. find_sl this w q opts = Some (Inr vs, this', w')"
proof -
  have "chain (replies w) (length (calls w)) [page]"
    using assms(3-7) by (simp add: served_def is_page_def link_of_def)
  from find_chain [OF assms(2,1) this, of q opts] assms(5) show ?thesis
    by (auto simp add: items_def)
qed

text \<open>
  A single page without a link.
\<close>

theorem find_single_page_witness:
  "property page3_ex nextLink = Inr JUndefined \<and>
   (\<exists>this' w'. find_sl session_ex (world_ex 0 granted_ex [Responded 200 page3_ex]) (JStr ''Orders'') JUndefined =
      Some (Inr [JNum 3], this', w'))"
proof -
  let ?w = "world_ex 0 granted_ex [Responded 200 page3_ex]"
  have ax: "axios session_ex \<noteq> None" by (simp add: session_ex_def)
  have r: "replies ?w (length (calls ?w)) = Responded 200 page3_ex" by (simp add: world_ex_sel)
  have v: "validateStatus 200" by (simp add: validateStatus_def)
  have p: "property page3_ex ''value'' = Inr (JArr [JNum 3])" by (simp add: page3_ex_def)
  have l: "property page3_ex nextLink = Inr JUndefined" by (simp add: page3_ex_def nextLink_def)
  have t: "\<not> truthy JUndefined" by simp
  from find_single_page [OF ax logins_succeed_ex r v p l t, of "JStr ''Orders''" JUndefined] l
  show ?thesis by simp
qed

text \<open>
  Claim C6. On an object that has its instance, with every re-login that falls due
  succeeding: for a chain of \<open>N\<close> pages (\<open>N\<close> at least 1) linked by
  \<open>@odata.nextLink\<close>, \<open>find\<close> returns the records of the \<open>N\<close> pages
  concatenated in the order the server sent them, nothing removed, and issues exactly
  \<open>N\<close> calls, all of them \<open>GET\<close>: the query, then the link of each page but the
  last.
\<close>

theorem find_concatenates:
  assumes "axios this \<noteq> None" and "logins_succeed w"
    and "chain (replies w) (length (calls w)) pages"
  shows "\<exists>this' w'. find_sl this w q opts = Some (Inr (concat (map items pages)), this', w') \<and>
      length (calls w') = length (calls w) + length pages \<and>
      map url (drop (length (calls w)) (calls w')) = q # map link_of (butlast pages) \<and>
      map http_method (drop (length (calls w)) (calls w')) = replicate (length pages) GET"
proof -
  from find_chain [OF assms(2,1,3), of q opts] obtain this' w' reqs where
    "find_sl this w q opts = Some (Inr (concat (map items pages)), this', w')"
    "calls w' = calls w @ reqs" "map url reqs = q # map link_of (butlast pages)"
    "map http_method reqs = replicate (length pages) GET"
    by auto
  moreover from this have "length reqs = length pages"
    by (metis length_map length_replicate)
  ultimately show ?thesis by simp
qed

text \<open>
  Three pages holding 1 2, 2 3 and 3: \<open>find\<close> returns 1 2 2 3 3, duplicates kept,
  after three calls.
\<close>

theorem find_concatenates_witness:
  "chain (replies (world_ex 0 granted_ex [Responded 200 page1_ex, Responded 200 page2_ex, Responded 200 page3_ex])) 0
     [page1_ex, page2_ex, page3_ex] \<and>
   (\<exists>this' w'. find_sl session_ex
        (world_ex 0 granted_ex [Responded 200 page1_ex, Responded 200 page2_ex, Responded 200 page3_ex])
        (JStr ''Orders'') opts_ex =
      Some (Inr [JNum 1, JNum 2, JNum 2, JNum 3, JNum 3], this', w') \<and>
      length (calls w') = 3 \<and>
      map url (calls w') = [JStr ''Orders'', JStr ''Orders?$skip=2'', JStr ''Orders?$skip=4''])"
proof -
  let ?w = "world_ex 0 granted_ex [Responded 200 page1_ex, Responded 200 page2_ex, Responded 200 page3_ex]"
  have ax: "axios session_ex \<noteq> None" by (simp add: session_ex_def)
  have ch: "chain (replies ?w) (length (calls ?w)) [page1_ex, page2_ex, page3_ex]"
    by (simp add: world_ex_sel page_defs page1_ex_def page2_ex_def page3_ex_def)
  from find_concatenates [OF ax logins_succeed_ex ch, of "JStr ''Orders''" opts_ex] ch
  show ?thesis
    by (auto simp add: world_ex_sel page_defs page1_ex_def page2_ex_def page3_ex_def)
qed

text \<open>
  Claim C2, as the code has it. On an object that has its instance, with every re-login
  that falls due succeeding: for a chain of pages linked by \<open>@odata.nextLink\<close>,
  \<open>find\<close> issues one call for the query and then one follow-up call for each
  further page, against the link of the page before, and every follow-up call, the
  first one included, carries the options the caller supplied.
\<close>

theorem find_follow_up_options:
  assumes "axios this \<noteq> None" and "logins_succeed w"
    and "chain (replies w) (length (calls w)) pages"
  shows "\<exists>this' w' result first follow_ups.
      find_sl this w q opts = Some (Inr result, this', w') \<and>
      calls w' = calls w @ first # follow_ups \<and>
      length follow_ups = length pages - 1 \<and>
      map url follow_ups = map link_of (butlast pages) \<and>
      map options follow_ups = replicate (length pages - 1) (default_options opts)"
proof -
  from find_chain [OF assms(2,1,3), of q opts] obtain this' w' reqs where
    *: "find_sl this w q opts = Some (Inr (concat (map items pages)), this', w')"
    "calls w' = calls w @ reqs" "map url reqs = q # map link_of (butlast pages)"
    "map options reqs = JObj [] # replicate (length pages - 1) (default_options opts)"
    by auto
  from *(3) obtain first follow_ups where reqs: "reqs = first # follow_ups" by (cases reqs) simp_all
  with *(3,4) have "map url follow_ups = map link_of (butlast pages)"
    "map options follow_ups = replicate (length pages - 1) (default_options opts)"
    by simp_all
  moreover from this(2) have "length follow_ups = length pages - 1"
    by (metis length_map length_replicate)
  ultimately show ?thesis using * reqs by blast
qed

text \<open>
  Three linked pages: both follow-up calls go to the links received and carry the
  caller's options.
\<close>

theorem find_follow_up_options_witness:
  "chain (replies (world_ex 0 granted_ex [Responded 200 page1_ex, Responded 200 page2_ex, Responded 200 page3_ex])) 0
     [page1_ex, page2_ex, page3_ex] \<and>
   (\<exists>this' w' result first follow_ups. find_sl session_ex
        (world_ex 0 granted_ex [Responded 200 page1_ex, Responded 200 page2_ex, Responded 200 page3_ex])
        (JStr ''Orders'') opts_ex = Some (Inr result, this', w') \<and>
      calls w' = first # follow_ups \<and>
      map url follow_ups = [JStr ''Orders?$skip=2'', JStr ''Orders?$skip=4''] \<and>
      map options follow_ups = [opts_ex, opts_ex])"
proof -
  let ?w = "world_ex 0 granted_ex [Responded 200 page1_ex, Responded 200 page2_ex, Responded 200 page3_ex]"
  have ax: "axios session_ex \<noteq> None" by (simp add: session_ex_def)
  have ch: "chain (replies ?w) (length (calls ?w)) [page1_ex, page2_ex, page3_ex]"
    by (simp add: world_ex_sel page_defs page1_ex_def page2_ex_def page3_ex_def)
  have d: "default_options opts_ex = opts_ex" by (simp add: default_options_def opts_ex_def)
  from find_follow_up_options [OF ax logins_succeed_ex ch, of "JStr ''Orders''" opts_ex] ch
  show ?thesis
    by (auto simp add: world_ex_sel d page_defs page1_ex_def page2_ex_def page3_ex_def)
qed

text \<open>
  Claim C2 as stated fails on a chain of two pages: the first follow-up call (call
  number 1, against the link of the first page) carries the caller's options; they are
  not ignored.
\<close>

theorem find_first_follow_up_options:
  "url (calls (snd (snd (the (find_sl session_ex
        (world_ex 0 granted_ex [Responded 200 page1_ex, Responded 200 page3_ex])
        (JStr ''Orders'') opts_ex)))) ! 1) = JStr ''Orders?$skip=2'' \<and>
   options (calls (snd (snd (the (find_sl session_ex
        (world_ex 0 granted_ex [Responded 200 page1_ex, Responded 200 page3_ex])
        (JStr ''Orders'') opts_ex)))) ! 1) = JObj [(''timeout'', JNum 5000)]"
proof -
  let ?w = "world_ex 0 granted_ex [Responded 200 page1_ex, Responded 200 page3_ex]"
  have ax: "axios session_ex \<noteq> None" by (simp add: session_ex_def)
  have ch: "chain (replies ?w) (length (calls ?w)) [page1_ex, page3_ex]"
    by (simp add: world_ex_sel page_defs page1_ex_def page3_ex_def)
  from find_chain [OF logins_succeed_ex ax ch, of "JStr ''Orders''" opts_ex]
  obtain this' w' reqs where
    f: "find_sl session_ex ?w (JStr ''Orders'') opts_ex = Some (Inr (concat (map items [page1_ex, page3_ex])), this', w')"
    and c: "calls w' = calls ?w @ reqs"
    and u: "map url reqs = JStr ''Orders'' # map link_of (butlast [page1_ex, page3_ex])"
    and p: "map options reqs = JObj [] # replicate (length [page1_ex, page3_ex] - 1) (default_options opts_ex)"
    by (elim exE conjE)
  from u obtain r0 r1 where reqs: "reqs = [r0, r1]"
    by (cases reqs; cases "tl reqs"; cases "tl (tl reqs)") auto
  with u p have "url r1 = JStr ''Orders?$skip=2''" "options r1 = JObj [(''timeout'', JNum 5000)]"
    by (simp_all add: page_defs page1_ex_def default_options_def opts_ex_def)
  with f c reqs show ?thesis by (simp add: world_ex_sel)
qed

text \<open>
  What the transport does with a status check that the options switch off: a query
  that carries \<open>validateStatus: null\<close> and is answered 404 returns the body.
\<close>

lemma query_override_ex:
  "fst (query session_ex (world_ex 0 granted_ex [Responded 404 (JStr ''Not found'')]) (JStr ''Orders'')
     (JObj [(''validateStatus'', JNull)])) = Inr (JStr ''Not found'')"
  by (simp add: query_def refreshSession_def dayjs_def send_def call_def session_ex_def
      world_ex_def default_options_def accepts_def)

text \<open>
  Claim C10. On an object that has its instance, with every re-login that falls due
  succeeding: when the call of \<open>query\<close> fails, that is, gets no response, cannot be set
  up, or is answered with a status that the check in force for the call refuses,
  \<open>query\<close> raises the error the transport raised. When \<open>find\<close> has received any
  number of pages (none included), each with a next link, and its next call fails in
  that sense, \<open>find\<close> raises the error the transport raised for that call. Neither
  returns a value. The call of \<open>query\<close> and the follow-up calls of \<open>find\<close> carry the
  caller's options; the first call of \<open>find\<close> carries none.
\<close>

theorem query_find_raise:
  assumes "axios this \<noteq> None" and "logins_succeed w"
  shows "(refused (default_options opts) (replies w (length (calls w))) \<longrightarrow>
       (\<exists>e this' w'. query this w q opts = (Inl e, this', w') \<and>
          settle (last (calls w')) (replies w (length (calls w))) = Inl e \<and>
          url (last (calls w')) = q)) \<and>
     (breaks (replies w) (length (calls w)) (JObj []) (default_options opts) pages \<longrightarrow>
       (\<exists>e this' w'. find_sl this w q opts = Some (Inl e, this', w') \<and>
          settle (last (calls w')) (replies w (length (calls w) + length pages)) = Inl e \<and>
          url (last (calls w')) = last (q # map link_of pages)))"
  using query_failed [OF assms(2,1), where u = q and opts = opts]
    find_breaks [OF assms(2,1), where q = q and opts = opts and ps = pages]
  by blast

text \<open>
  A query with options that is answered 404, and a listing whose third call gets no
  response.
\<close>

theorem query_find_raise_witness:
  "refused (default_options opts_ex)
     (replies (world_ex 0 granted_ex [Responded 404 (JStr ''Not found'')]) 0) \<and>
   breaks (replies (world_ex 0 granted_ex [Responded 200 page1_ex, Responded 200 page2_ex, NoResponse ''timeout''])) 0
     (JObj []) (default_options opts_ex) [page1_ex, page2_ex] \<and>
   (\<exists>this' w'. query session_ex (world_ex 0 granted_ex [Responded 404 (JStr ''Not found'')])
        (JStr ''Orders'') opts_ex =
      (Inl \<lparr>response = Some \<lparr>status = 404, data = JStr ''Not found''\<rparr>,
             request = Some (JStr ''Orders''),
             message = ''Request failed with status code 404''\<rparr>, this', w')) \<and>
   (\<exists>this' w'. find_sl session_ex
        (world_ex 0 granted_ex [Responded 200 page1_ex, Responded 200 page2_ex, NoResponse ''timeout''])
        (JStr ''Orders'') opts_ex =
      Some (Inl \<lparr>response = None, request = Some (JStr ''Orders?$skip=4''), message = ''timeout''\<rparr>,
            this', w'))"
proof -
  let ?w1 = "world_ex 0 granted_ex [Responded 404 (JStr ''Not found'')]"
  let ?w2 = "world_ex 0 granted_ex [Responded 200 page1_ex, Responded 200 page2_ex, NoResponse ''timeout'']"
  have d: "default_options opts_ex = opts_ex" by (simp add: default_options_def opts_ex_def)
  have f: "refused (default_options opts_ex) (replies ?w1 (length (calls ?w1)))"
    by (simp add: world_ex_sel refused_def accepts_def validateStatus_def default_options_def
        opts_ex_def)
  have b: "breaks (replies ?w2) (length (calls ?w2)) (JObj []) (default_options opts_ex)
      [page1_ex, page2_ex]"
    by (simp add: world_ex_sel page_defs page1_ex_def page2_ex_def default_options_def opts_ex_def)
  have n: "decimal 404 = ''404''" by (simp add: decimal.simps)
  have l1: "logins_succeed ?w1" and l2: "logins_succeed ?w2"
    by (rule logins_succeed_ex)+
  from query_find_raise [OF axios_ex l1, where q = "JStr ''Orders''" and opts = opts_ex and pages = "[]"] f
  obtain e1 t1 v1 where
    q1: "query session_ex ?w1 (JStr ''Orders'') opts_ex = (Inl e1, t1, v1)"
    and s1: "settle (last (calls v1)) (Responded 404 (JStr ''Not found'')) = Inl e1"
    and u1: "url (last (calls v1)) = JStr ''Orders''"
    by (auto simp add: world_ex_sel)
  from s1 u1 n have e1: "e1 = \<lparr>response = Some \<lparr>status = 404, data = JStr ''Not found''\<rparr>,
      request = Some (JStr ''Orders''), message = ''Request failed with status code 404''\<rparr>"
    by (auto split: if_splits)
  from query_find_raise [OF axios_ex l2, where q = "JStr ''Orders''" and opts = opts_ex
      and pages = "[page1_ex, page2_ex]"] b
  obtain e2 t2 v2 where
    q2: "find_sl session_ex ?w2 (JStr ''Orders'') opts_ex = Some (Inl e2, t2, v2)"
    and s2: "settle (last (calls v2)) (NoResponse ''timeout'') = Inl e2"
    and u2: "url (last (calls v2)) = link_of page2_ex"
    by (auto simp add: world_ex_sel)
  from s2 u2 have e2: "e2 = \<lparr>response = None, request = Some (JStr ''Orders?$skip=4''),
      message = ''timeout''\<rparr>"
    by (auto simp add: link_of_def nextLink_def page2_ex_def)
  from f b q1 q2 e1 e2 show ?thesis
    by (auto simp add: world_ex_sel)
qed

section \<open>Resources\<close>

subsection \<open>The four methods\<close>

lemma parseError_settle:
  "refused (options req) out \<Longrightarrow>
     (case settle req out of Inl e \<Rightarrow> parseError e | Inr x \<Rightarrow> Inr (data x)) =
       Inr (tagged (message_shape out))"
  by (cases out) (simp_all add: refused_def parseError_def message_shape_def)

lemma get_settled:
  assumes "axios this \<noteq> None" and "fst (refreshSession this w) = Inr ()"
  shows "\<exists>req. options req = default_options opts \<and> fst (get this w resource opts) =
      (case settle req (replies w (length (calls w))) of
         Inl e \<Rightarrow> parseError e | Inr x \<Rightarrow> Inr (data x))"
proof -
  obtain r this1 w1 where rs: "refreshSession this w = (r, this1, w1)"
    by (metis prod_cases3)
  with assms(2) have r: "r = Inr ()" by simp
  from refreshSession_axios [OF assms(1), of w] rs obtain ax where ax: "axios this1 = Some ax"
    by auto
  from refreshSession_world [of w this] rs have "replies w1 = replies w" "calls w1 = calls w"
    by (simp_all add: same_script_def)
  then show ?thesis
    by (intro exI [of _ "\<lparr>via = ax, http_method = GET, url = JStr resource, payload = JUndefined,
          options = default_options opts\<rparr>"])
      (simp add: get_def rs r ax send_def call_def Let_def split: sum.splits)
qed

lemma put_settled:
  assumes "axios this \<noteq> None" and "fst (refreshSession this w) = Inr ()"
  shows "\<exists>req. options req = JUndefined \<and> fst (put this w resource d) =
      (case settle req (replies w (length (calls w))) of
         Inl e \<Rightarrow> parseError e | Inr x \<Rightarrow> Inr (data x))"
proof -
  obtain r this1 w1 where rs: "refreshSession this w = (r, this1, w1)"
    by (metis prod_cases3)
  with assms(2) have r: "r = Inr ()" by simp
  from refreshSession_axios [OF assms(1), of w] rs obtain ax where ax: "axios this1 = Some ax"
    by auto
  from refreshSession_world [of w this] rs have "replies w1 = replies w" "calls w1 = calls w"
    by (simp_all add: same_script_def)
  then show ?thesis
    by (intro exI [of _ "\<lparr>via = ax, http_method = PUT, url = JStr resource, payload = d,
          options = JUndefined\<rparr>"])
      (simp add: put_def rs r ax send_def call_def Let_def split: sum.splits)
qed

lemma patch_settled:
  assumes "axios this \<noteq> None" and "fst (refreshSession this w) = Inr ()"
  shows "\<exists>req. options req = JUndefined \<and> fst (patch this w resource d) =
      (case settle req (replies w (length (calls w))) of
         Inl e \<Rightarrow> parseError e | Inr x \<Rightarrow> Inr (data x))"
proof -
  obtain r this1 w1 where rs: "refreshSession this w = (r, this1, w1)"
    by (metis prod_cases3)
  with assms(2) have r: "r = Inr ()" by simp
  from refreshSession_axios [OF assms(1), of w] rs obtain ax where ax: "axios this1 = Some ax"
    by auto
  from refreshSession_world [of w this] rs have "replies w1 = replies w" "calls w1 = calls w"
    by (simp_all add: same_script_def)
  then show ?thesis
    by (intro exI [of _ "\<lparr>via = ax, http_method = PATCH, url = JStr resource, payload = d,
          options = JUndefined\<rparr>"])
      (simp add: patch_def rs r ax send_def call_def Let_def split: sum.splits)
qed

lemma post_settled:
  assumes "axios this \<noteq> None" and "fst (refreshSession this w) = Inr ()"
  shows "\<exists>req. options req = JUndefined \<and> fst (post this w resource d) =
      (case settle req (replies w (length (calls w))) of
         Inl e \<Rightarrow> parseError e | Inr x \<Rightarrow> Inr (data x))"
proof -
  obtain r this1 w1 where rs: "refreshSession this w = (r, this1, w1)"
    by (metis prod_cases3)
  with assms(2) have r: "r = Inr ()" by simp
  from refreshSession_axios [OF assms(1), of w] rs obtain ax where ax: "axios this1 = Some ax"
    by auto
  from refreshSession_world [of w this] rs have "replies w1 = replies w" "calls w1 = calls w"
    by (simp_all add: same_script_def)
  then show ?thesis
    by (intro exI [of _ "\<lparr>via = ax, http_method = POST, url = JStr resource, payload = d,
          options = JUndefined\<rparr>"])
      (simp add: post_def rs r ax send_def call_def Let_def split: sum.splits)
qed

lemma get_relogin_refused:
  assumes "fst (refreshSession this w) = Inl e"
  shows "fst (get this w resource opts) = parseError e"
proof -
  obtain r this1 w1 where rs: "refreshSession this w = (r, this1, w1)"
    by (metis prod_cases3)
  with assms have "r = Inl e" by simp
  with rs show ?thesis by (simp add: get_def Let_def)
qed

lemma put_relogin_refused:
  assumes "fst (refreshSession this w) = Inl e"
  shows "fst (put this w resource d) = parseError e"
proof -
  obtain r this1 w1 where rs: "refreshSession this w = (r, this1, w1)"
    by (metis prod_cases3)
  with assms have "r = Inl e" by simp
  with rs show ?thesis by (simp add: put_def Let_def)
qed

lemma patch_relogin_refused:
  assumes "fst (refreshSession this w) = Inl e"
  shows "fst (patch this w resource d) = parseError e"
proof -
  obtain r this1 w1 where rs: "refreshSession this w = (r, this1, w1)"
    by (metis prod_cases3)
  with assms have "r = Inl e" by simp
  with rs show ?thesis by (simp add: patch_def Let_def)
qed

lemma post_relogin_refused:
  assumes "fst (refreshSession this w) = Inl e"
  shows "fst (post this w resource d) = parseError e"
proof -
  obtain r this1 w1 where rs: "refreshSession this w = (r, this1, w1)"
    by (metis prod_cases3)
  with assms have "r = Inl e" by simp
  with rs show ?thesis by (simp add: post_def Let_def)
qed

subsection \<open>Errors as values\<close>

text \<open>
  What the transport does with a status check that the options switch off: a \<open>get\<close>
  that carries \<open>validateStatus: null\<close> and is answered 404 returns the body, which is no
  failure of the transport.
\<close>

lemma get_override_ex:
  "fst (get session_ex (world_ex 0 granted_ex [Responded 404 (JStr ''Not found'')]) ''Orders(10)''
     (JObj [(''validateStatus'', JNull)])) = Inr (JStr ''Not found'')"
  by (simp add: get_def refreshSession_def dayjs_def send_def call_def session_ex_def
      world_ex_def default_options_def accepts_def)

text \<open>
  Claim C4. When the session check passes and the call of \<open>get\<close>, \<open>put\<close>,
  \<open>patch\<close> or \<open>post\<close> fails, the method returns the tagged value
  \<open>{error: true, message: m}\<close> and does not raise; \<open>m\<close> is the body of the response
  when a response with a refused status arrived, the text \<open>ERROR REQUEST\<close> when the
  request was sent and no response arrived, and the message of the error when the
  request was never sent. A status is refused by the check in force for the call:
  \<open>get\<close> passes the caller's options on to the transport, the other three pass none.
\<close>

theorem facade_failure_tagged:
  assumes "axios this \<noteq> None" and "fst (refreshSession this w) = Inr ()"
  shows "(refused (default_options opts) (replies w (length (calls w))) \<longrightarrow>
       fst (get this w resource opts) =
         Inr (JObj [(''error'', JBool True),
                    (''message'', message_shape (replies w (length (calls w))))])) \<and>
     (refused JUndefined (replies w (length (calls w))) \<longrightarrow>
       fst (put this w resource d) =
         Inr (JObj [(''error'', JBool True),
                    (''message'', message_shape (replies w (length (calls w))))]) \<and>
       fst (patch this w resource d) =
         Inr (JObj [(''error'', JBool True),
                    (''message'', message_shape (replies w (length (calls w))))]) \<and>
       fst (post this w resource d) =
         Inr (JObj [(''error'', JBool True),
                    (''message'', message_shape (replies w (length (calls w))))]))"
proof (intro conjI impI)
  assume "refused (default_options opts) (replies w (length (calls w)))"
  with get_settled [OF assms, of opts resource]
  show "fst (get this w resource opts) =
         Inr (JObj [(''error'', JBool True),
                    (''message'', message_shape (replies w (length (calls w))))])"
    by (auto simp add: parseError_settle tagged_def)
next
  assume r: "refused JUndefined (replies w (length (calls w)))"
  with put_settled [OF assms, of resource d]
  show "fst (put this w resource d) =
         Inr (JObj [(''error'', JBool True),
                    (''message'', message_shape (replies w (length (calls w))))])"
    by (auto simp add: parseError_settle tagged_def)
  from r patch_settled [OF assms, of resource d]
  show "fst (patch this w resource d) =
         Inr (JObj [(''error'', JBool True),
                    (''message'', message_shape (replies w (length (calls w))))])"
    by (auto simp add: parseError_settle tagged_def)
  from r post_settled [OF assms, of resource d]
  show "fst (post this w resource d) =
         Inr (JObj [(''error'', JBool True),
                    (''message'', message_shape (replies w (length (calls w))))])"
    by (auto simp add: parseError_settle tagged_def)
qed

text \<open>
  One failure of each kind: a response with status 404, to a \<open>get\<close> with options and
  to a \<open>put\<close>; a request without response; a request that could not be set up.
\<close>

theorem facade_failure_tagged_witness:
  "refused (default_options opts_ex) (Responded 404 (JStr ''Not found'')) \<and>
   refused JUndefined (Responded 404 (JStr ''Not found'')) \<and>
   refused JUndefined (NoResponse ''timeout'') \<and>
   refused JUndefined (SetupFailed ''Invalid URL'') \<and>
   fst (get session_ex (world_ex 0 granted_ex [Responded 404 (JStr ''Not found'')]) ''Orders(10)'' opts_ex) =
     Inr (JObj [(''error'', JBool True), (''message'', JStr ''Not found'')]) \<and>
   fst (put session_ex (world_ex 0 granted_ex [Responded 404 (JStr ''Not found'')]) ''Orders(10)'' JNull) =
     Inr (JObj [(''error'', JBool True), (''message'', JStr ''Not found'')]) \<and>
   fst (patch session_ex (world_ex 0 granted_ex [NoResponse ''timeout'']) ''Orders(10)'' JNull) =
     Inr (JObj [(''error'', JBool True), (''message'', JStr ''ERROR REQUEST'')]) \<and>
   fst (post session_ex (world_ex 0 granted_ex [SetupFailed ''Invalid URL'']) ''Orders'' JNull) =
     Inr (JObj [(''error'', JBool True), (''message'', JStr ''Invalid URL'')])"
proof -
  have d: "default_options opts_ex = opts_ex" by (simp add: default_options_def opts_ex_def)
  have a: "refused (default_options opts_ex) (Responded 404 (JStr ''Not found''))"
    "refused JUndefined (Responded 404 (JStr ''Not found''))"
    by (simp_all add: refused_def accepts_def validateStatus_def default_options_def opts_ex_def)
  have b: "refused JUndefined (NoResponse ''timeout'')"
    by (simp add: refused_def)
  have c: "refused JUndefined (SetupFailed ''Invalid URL'')"
    by (simp add: refused_def)
  from facade_failure_tagged [OF axios_ex
        refreshSession_ex [where l = granted_ex and rs = "[Responded 404 (JStr ''Not found'')]"],
      where opts = opts_ex and resource = "''Orders(10)''" and d = JNull]
    facade_failure_tagged [OF axios_ex
        refreshSession_ex [where l = granted_ex and rs = "[NoResponse ''timeout'']"],
      where opts = opts_ex and resource = "''Orders(10)''" and d = JNull]
    facade_failure_tagged [OF axios_ex
        refreshSession_ex [where l = granted_ex and rs = "[SetupFailed ''Invalid URL'']"],
      where opts = opts_ex and resource = "''Orders''" and d = JNull]
    a b c
  show ?thesis
    by (simp add: world_ex_sel message_shape_def)
qed

text \<open>
  Claim C9. When the session check passes and the server answers the call of \<open>get\<close>
  with status 405, \<open>get\<close> returns the body of the response, as it does for a status
  from 200 to 299. For every other status (a status is never 0) it returns the object
  \<open>{error: true, message: body}\<close>, not the body, when the options of the call carry no
  \<open>validateStatus\<close> of their own.
\<close>

theorem get_status_405:
  assumes "axios this \<noteq> None" and "fst (refreshSession this w) = Inr ()"
    and "replies w (length (calls w)) = Responded st body"
  shows "(st = 405 \<longrightarrow> fst (get this w resource opts) = Inr body) \<and>
     (200 \<le> st \<and> st < 300 \<longrightarrow> fst (get this w resource opts) = Inr body) \<and>
     (\<not> (200 \<le> st \<and> st < 300) \<and> st \<noteq> 405 \<and> st \<noteq> 0 \<and>
      own (default_options opts) ''validateStatus'' = None \<longrightarrow>
        fst (get this w resource opts) = Inr (JObj [(''error'', JBool True), (''message'', body)]) \<and>
        fst (get this w resource opts) \<noteq> Inr body)"
proof -
  from get_settled [OF assms(1,2), of opts resource] assms(3) obtain req where
    req: "options req = default_options opts"
    "fst (get this w resource opts) =
      (case settle req (Responded st body) of Inl e \<Rightarrow> parseError e | Inr x \<Rightarrow> Inr (data x))"
    by auto
  have size: "body \<noteq> JObj [(''error'', JBool True), (''message'', body)]"
  proof
    assume "body = JObj [(''error'', JBool True), (''message'', body)]"
    then have "size body = size (JObj [(''error'', JBool True), (''message'', body)])" by simp
    then show False by simp
  qed
  show ?thesis
    using req size
    by (auto simp add: accepts_def validateStatus_def parseError_def tagged_def
        split: option.splits)
qed

text \<open>
  Status 405 and 200 give the body; status 404, with options that set a timeout, and
  status 304 give the tagged object.
\<close>

theorem get_status_405_witness:
  "fst (get session_ex (world_ex 0 granted_ex [Responded 405 (JStr ''Method Not Allowed'')]) ''Orders(10)'' JUndefined) =
     Inr (JStr ''Method Not Allowed'') \<and>
   fst (get session_ex (world_ex 0 granted_ex [Responded 200 (JObj [(''DocEntry'', JNum 10)])]) ''Orders(10)'' JUndefined) =
     Inr (JObj [(''DocEntry'', JNum 10)]) \<and>
   own (default_options opts_ex) ''validateStatus'' = None \<and>
   fst (get session_ex (world_ex 0 granted_ex [Responded 404 (JStr ''Not found'')]) ''Orders(10)'' opts_ex) =
     Inr (JObj [(''error'', JBool True), (''message'', JStr ''Not found'')]) \<and>
   own (default_options JUndefined) ''validateStatus'' = None \<and>
   fst (get session_ex (world_ex 0 granted_ex [Responded 304 JNull]) ''Orders(10)'' JUndefined) =
     Inr (JObj [(''error'', JBool True), (''message'', JNull)])"
proof -
  have a: "replies (world_ex 0 granted_ex [Responded 405 (JStr ''Method Not Allowed'')])
      (length (calls (world_ex 0 granted_ex [Responded 405 (JStr ''Method Not Allowed'')]))) =
      Responded 405 (JStr ''Method Not Allowed'')"
    by (simp add: world_ex_sel)
  have b: "replies (world_ex 0 granted_ex [Responded 200 (JObj [(''DocEntry'', JNum 10)])])
      (length (calls (world_ex 0 granted_ex [Responded 200 (JObj [(''DocEntry'', JNum 10)])]))) =
      Responded 200 (JObj [(''DocEntry'', JNum 10)])"
    by (simp add: world_ex_sel)
  have c: "replies (world_ex 0 granted_ex [Responded 404 (JStr ''Not found'')])
      (length (calls (world_ex 0 granted_ex [Responded 404 (JStr ''Not found'')]))) =
      Responded 404 (JStr ''Not found'')"
    by (simp add: world_ex_sel)
  have d: "replies (world_ex 0 granted_ex [Responded 304 JNull])
      (length (calls (world_ex 0 granted_ex [Responded 304 JNull]))) = Responded 304 JNull"
    by (simp add: world_ex_sel)
  have o: "own (default_options opts_ex) ''validateStatus'' = None"
    "own (default_options JUndefined) ''validateStatus'' = None"
    by (simp_all add: default_options_def opts_ex_def)
  from get_status_405 [OF axios_ex refreshSession_ex a, of "''Orders(10)''" JUndefined]
    get_status_405 [OF axios_ex refreshSession_ex b, of "''Orders(10)''" JUndefined]
    get_status_405 [OF axios_ex refreshSession_ex c, of "''Orders(10)''" opts_ex]
    get_status_405 [OF axios_ex refreshSession_ex d, of "''Orders(10)''" JUndefined]
    o
  show ?thesis by simp
qed

text \<open>
  Claim C3, as the code has it. When the login call fails with error \<open>e\<close>,
  \<open>createSession\<close> raises \<open>e\<close>. On an expired session \<open>refreshSession\<close>,
  \<open>query\<close> and \<open>find\<close> raise \<open>e\<close> as well, while \<open>get\<close>, \<open>put\<close>,
  \<open>patch\<close> and \<open>post\<close> catch it, the re-login being inside their \<open>try\<close>
  block, and return what \<open>parseError\<close> makes of \<open>e\<close>.
\<close>

theorem login_failure_raised:
  assumes "login_replies w (length (logins w)) = Inl e"
  shows "fst (createSession this w arg) = Inl e \<and>
     (isAfter (clock w (ticks w)) (endSessionTime this) \<longrightarrow>
        fst (refreshSession this w) = Inl e \<and>
        fst (query this w q opts) = Inl e \<and>
        map_option fst (find_sl this w q opts) = Some (Inl e) \<and>
        fst (get this w resource opts) = parseError e \<and>
        fst (put this w resource d) = parseError e \<and>
        fst (patch this w resource d) = parseError e \<and>
        fst (post this w resource d) = parseError e)"
proof (intro conjI impI)
  show "fst (createSession this w arg) = Inl e"
    by (rule createSession_refused [OF assms])
next
  assume "isAfter (clock w (ticks w)) (endSessionTime this)"
  from refreshSession_refused [OF assms this] have r: "fst (refreshSession this w) = Inl e" .
  then show "fst (refreshSession this w) = Inl e" .
  from r show "fst (query this w q opts) = Inl e" by (rule query_relogin_refused)
  from r show "map_option fst (find_sl this w q opts) = Some (Inl e)" by (rule find_relogin_refused)
  from r show "fst (get this w resource opts) = parseError e" by (rule get_relogin_refused)
  from r show "fst (put this w resource d) = parseError e" by (rule put_relogin_refused)
  from r show "fst (patch this w resource d) = parseError e" by (rule patch_relogin_refused)
  from r show "fst (post this w resource d) = parseError e" by (rule post_relogin_refused)
qed

text \<open>
  An expired session and a login request that gets no response: \<open>createSession\<close>,
  \<open>refreshSession\<close>, \<open>query\<close> and \<open>find\<close> raise the error; \<open>get\<close> and
  \<open>post\<close> return the tagged value with the message \<open>ERROR REQUEST\<close>.
\<close>

theorem login_failure_raised_witness:
  "login_replies (world_ex 1800000 refused_ex []) (length (logins (world_ex 1800000 refused_ex []))) =
     Inl \<lparr>response = None, request = Some (JStr ''Login''), message = ''Network Error''\<rparr> \<and>
   isAfter (clock (world_ex 1800000 refused_ex []) (ticks (world_ex 1800000 refused_ex [])))
     (endSessionTime session_ex) \<and>
   fst (createSession session_ex (world_ex 1800000 refused_ex []) config_ex) =
     Inl \<lparr>response = None, request = Some (JStr ''Login''), message = ''Network Error''\<rparr> \<and>
   fst (refreshSession session_ex (world_ex 1800000 refused_ex [])) =
     Inl \<lparr>response = None, request = Some (JStr ''Login''), message = ''Network Error''\<rparr> \<and>
   fst (query session_ex (world_ex 1800000 refused_ex []) (JStr ''Orders'') JUndefined) =
     Inl \<lparr>response = None, request = Some (JStr ''Login''), message = ''Network Error''\<rparr> \<and>
   map_option fst (find_sl session_ex (world_ex 1800000 refused_ex []) (JStr ''Orders'') JUndefined) =
     Some (Inl \<lparr>response = None, request = Some (JStr ''Login''), message = ''Network Error''\<rparr>) \<and>
   fst (get session_ex (world_ex 1800000 refused_ex []) ''Orders(10)'' JUndefined) =
     Inr (tagged (JStr ''ERROR REQUEST'')) \<and>
   fst (post session_ex (world_ex 1800000 refused_ex []) ''Orders'' JNull) =
     Inr (tagged (JStr ''ERROR REQUEST''))"
proof -
  let ?w = "world_ex 1800000 refused_ex []"
  have l: "login_replies ?w (length (logins ?w)) =
      Inl \<lparr>response = None, request = Some (JStr ''Login''), message = ''Network Error''\<rparr>"
    by (simp add: world_ex_sel refused_ex_def)
  have a: "isAfter (clock ?w (ticks ?w)) (endSessionTime session_ex)"
    by (simp add: world_ex_sel session_ex_def)
  have p: "parseError \<lparr>response = None, request = Some (JStr ''Login''), message = ''Network Error''\<rparr> =
      Inr (tagged (JStr ''ERROR REQUEST''))"
    by (simp add: parseError_def)
  from login_failure_raised [OF l, of session_ex config_ex "JStr ''Orders''" JUndefined "''Orders(10)''" JNull]
    login_failure_raised [OF l, of session_ex config_ex "JStr ''Orders''" JUndefined "''Orders''" JNull]
    l a p
  show ?thesis by simp
qed

text \<open>
  Claim C3 as stated fails for the re-login inside \<open>get\<close>: on an expired session
  whose login request gets no response, \<open>get\<close> does not raise; it returns the tagged
  value \<open>{error: true, message: 'ERROR REQUEST'}\<close>.
\<close>

theorem get_relogin_failure_tagged:
  "fst (get session_ex (world_ex 1800000 refused_ex []) ''Orders(10)'' JUndefined) =
     Inr (JObj [(''error'', JBool True), (''message'', JStr ''ERROR REQUEST'')])"
  by (simp add: get_def refreshSession_def createSession_def post_Login_def dayjs_def Let_def
      session_ex_def world_ex_def refused_ex_def parseError_def default_options_def tagged_def)

end
